theory Spec2Isabelle
  imports Main "HOL-Library.Word"
begin

section \<open>Errors\<close>

text \<open>
  A Go \<open>error\<close> has an identity (compared with \<open>==\<close>) and a message (\<open>err.Error()\<close>).
  The sentinels are constructors, so that two values are \<open>==\<close> exactly when they are the
  same constructor; \<open>ErrorNew s\<close> is an error made by \<open>errors.New(s)\<close> somewhere else.
  \<open>ErrNoDocuments\<close> is \<open>mongo.ErrNoDocuments\<close> of the mongo driver.
\<close>

datatype error =
    ErrNoDocuments
  | ErrorNodeMonitorError
  | ErrorSubscribeNotExists
  | ErrorDuplicateKey
  | ErrorNew string

text \<open>\<open>errors/base.go\<close>: the text \<open>fmt.Sprintf("%s error: %s", prefix, msg)\<close> and \<open>NewError\<close>.\<close>

definition error_text :: "string \<Rightarrow> string \<Rightarrow> string" where
  "error_text prefix msg = prefix @ '' error: '' @ msg"

definition NewError :: "string \<Rightarrow> string \<Rightarrow> error" where
  "NewError prefix msg = ErrorNew (error_text prefix msg)"

text \<open>
  Modelled from the spec: the messages of the sentinels \<open>monitor_error\<close>,
  \<open>subscription_absent\<close> and \<open>duplicate_key\<close> (section 7), whose declarations are not
  among the sources; they are given the format of \<open>NewError\<close>. The message of
  \<open>mongo.ErrNoDocuments\<close> is the driver's.
\<close>

fun Error :: "error \<Rightarrow> string" where
  "Error ErrNoDocuments = ''mongo: no documents in result''"
| "Error ErrorNodeMonitorError = error_text ''node'' ''monitor error''"
| "Error ErrorSubscribeNotExists = error_text ''grpc'' ''subscribe not exists''"
| "Error ErrorDuplicateKey = error_text ''model'' ''duplicate key''"
| "Error (ErrorNew s) = s"

section \<open>Data model\<close>

text \<open>
  Modelled from the spec: the status of a node (section 3), one of online and offline;
  the constants package is not among the sources.
\<close>

datatype node_status = NodeStatusOnline | NodeStatusOffline

text \<open>
  Modelled from the spec: the persisted node (section 3), with the field names that
  \<open>Register\<close> uses; the models package is not among the sources. \<open>ActiveTs\<close> is a point
  in time, in nanoseconds.
\<close>

record Node =
  Id :: nat
  Key :: string
  Name :: string
  IsMaster :: bool
  Status :: node_status
  Enabled :: bool
  Active :: bool
  ActiveTs :: int

text \<open>The heartbeat message: the two fields of \<open>grpc.StreamMessage\<close> that \<open>monitor\<close> sets.\<close>

datatype StreamMessageCode = PING | PONG

record StreamMessage =
  Code :: StreamMessageCode
  NodeKey :: string

text \<open>
  Modelled from the spec: a stream handle (section 3, Subscription); \<open>sendErr\<close> is what a
  send on it returns at present, \<open>None\<close> while the transport is open.
\<close>

record Stream =
  streamId :: nat
  sendErr :: "error option"

text \<open>The settings of \<open>MasterService\<close>; \<open>time.Duration\<close> is a signed 64-bit count of nanoseconds.\<close>

type_synonym Duration = "64 word"

definition Second :: Duration where
  "Second = 1000000000"

record MasterService =
  cfgPath :: string
  address :: "string option"
  monitorInterval :: Duration
  stopOnError :: bool

text \<open>
  Every call the service makes on a collaborator is recorded, in order: the calls on
  the registry, the stream server and the streams, the prints of errors
  (\<open>trace.PrintError\<close>, \<open>trace.TraceError\<close>, \<open>log.Errorf\<close>), the sleeps, the spawn of the
  monitor loop and the wait for the termination signal. The informational lines of
  \<open>log.Infof\<close> change nothing that is observed here and are left out.
\<close>

datatype event =
    EvServerStart
  | EvServerStop
  | EvGetNodeByKey string
  | EvGetNodeList
  | EvAdd string
  | EvUpdateStatus string node_status
  | EvGetSubscribe string
  | EvSend nat StreamMessage
  | EvPrintError error
  | EvLogErrorf string error
  | EvSleep Duration
  | EvGo
  | EvWait

text \<open>
  The collaborators of the service (configuration, registry, stream server, clock):
  \<open>nodeKey\<close> is \<open>GetConfigService().GetNodeKey()\<close>, \<open>nodes\<close> the rows of the registry,
  \<open>subs\<close> the subscription table. \<open>faults\<close> is the script of the store's failures: each
  registry call takes the head, \<open>Some e\<close> makes that call fail with \<open>e\<close>; an exhausted
  script means no failure (\<open>registry_unavailable\<close> of section 7 can surface from any call).
\<close>

record world =
  nodeKey :: string
  nodes :: "Node list"
  nextId :: nat
  faults :: "error option list"
  subs :: "(string \<times> Stream) list"
  serverRunning :: bool
  serverStartErr :: "error option"
  clock :: int
  events :: "event list"

definition emit :: "event \<Rightarrow> world \<Rightarrow> world" where
  "emit e w = w\<lparr>events := events w @ [e]\<rparr>"

definition fault :: "world \<Rightarrow> error option" where
  "fault w = (case faults w of [] \<Rightarrow> None | f # _ \<Rightarrow> f)"

definition consume :: "world \<Rightarrow> world" where
  "consume w = w\<lparr>faults := drop 1 (faults w)\<rparr>"

section \<open>The registry\<close>

text \<open>
  Modelled from the spec: \<open>get_by_key(key)\<close> of section 4.1 (\<open>ModelService.GetNodeByKey\<close>
  is not among the sources): the node of that key, or not found, which is the driver's
  \<open>ErrNoDocuments\<close>.
\<close>

definition GetNodeByKey :: "world \<Rightarrow> string \<Rightarrow> world \<times> (error + Node)" where
  "GetNodeByKey w k =
     (let w1 = consume (emit (EvGetNodeByKey k) w) in
      case fault w of
        Some e \<Rightarrow> (w1, Inl e)
      | None \<Rightarrow>
          (case find (\<lambda>n. Key n = k) (nodes w) of
             None \<Rightarrow> (w1, Inl ErrNoDocuments)
           | Some n \<Rightarrow> (w1, Inr n)))"

text \<open>
  Modelled from the spec: \<open>list(filter)\<close> of section 4.1 (\<open>ModelService.GetNodeList\<close> is
  not among the sources).
\<close>

definition GetNodeList :: "world \<Rightarrow> (Node \<Rightarrow> bool) \<Rightarrow> world \<times> (error + Node list)" where
  "GetNodeList w f =
     (let w1 = consume (emit EvGetNodeList w) in
      case fault w of
        Some e \<Rightarrow> (w1, Inl e)
      | None \<Rightarrow> (w1, Inr (filter f (nodes w))))"

text \<open>
  Modelled from the spec: \<open>add(node)\<close> of section 4.1 (the delegate's \<open>Add\<close> is not among
  the sources): insert, failing with \<open>duplicate_key\<close> if the key is present; the registry
  assigns the id.
\<close>

definition Add :: "world \<Rightarrow> Node \<Rightarrow> world \<times> error option" where
  "Add w n =
     (let w1 = consume (emit (EvAdd (Key n)) w) in
      case fault w of
        Some e \<Rightarrow> (w1, Some e)
      | None \<Rightarrow>
          if Key n \<in> set (map Key (nodes w)) then (w1, Some ErrorDuplicateKey)
          else (w1\<lparr>nodes := nodes w @ [n\<lparr>Id := nextId w\<rparr>], nextId := Suc (nextId w)\<rparr>, None))"

text \<open>
  Modelled from the spec: \<open>update_status(key, status)\<close> of section 4.1 (the delegate's
  \<open>UpdateStatusOnline\<close> and \<open>UpdateStatusOffline\<close> are not among the sources): on online
  also \<open>active_ts = now\<close> and \<open>active = true\<close>; on offline \<open>active_ts\<close> is left untouched.
\<close>

definition set_status :: "int \<Rightarrow> node_status \<Rightarrow> Node \<Rightarrow> Node" where
  "set_status now st n =
     (case st of
        NodeStatusOnline \<Rightarrow> n\<lparr>Status := NodeStatusOnline, Active := True, ActiveTs := now\<rparr>
      | NodeStatusOffline \<Rightarrow> n\<lparr>Status := NodeStatusOffline\<rparr>)"

definition UpdateStatus :: "world \<Rightarrow> string \<Rightarrow> node_status \<Rightarrow> world \<times> error option" where
  "UpdateStatus w k st =
     (let w1 = consume (emit (EvUpdateStatus k st) w) in
      case fault w of
        Some e \<Rightarrow> (w1, Some e)
      | None \<Rightarrow>
          if k \<notin> set (map Key (nodes w)) then (w1, Some ErrNoDocuments)
          else (w1\<lparr>nodes := map (\<lambda>n. if Key n = k then set_status (clock w) st n else n) (nodes w)\<rparr>,
                None))"

definition UpdateStatusOnline :: "world \<Rightarrow> Node \<Rightarrow> world \<times> error option" where
  "UpdateStatusOnline w n = UpdateStatus w (Key n) NodeStatusOnline"

definition UpdateStatusOffline :: "world \<Rightarrow> Node \<Rightarrow> world \<times> error option" where
  "UpdateStatusOffline w n = UpdateStatus w (Key n) NodeStatusOffline"

section \<open>The stream server\<close>

text \<open>
  Modelled from the spec: the stream server of section 4.3 (the grpc server package is
  not among the sources): \<open>start()\<close>, which can fail, \<open>stop()\<close>, which closes all
  subscriptions, and \<open>get_subscribe(node_key)\<close>, a subscription or absent.
\<close>

definition server_Start :: "world \<Rightarrow> world \<times> error option" where
  "server_Start w =
     (let w1 = emit EvServerStart w in
      case serverStartErr w of
        Some e \<Rightarrow> (w1, Some e)
      | None \<Rightarrow> (w1\<lparr>serverRunning := True\<rparr>, None))"

definition server_Stop :: "world \<Rightarrow> world \<times> error option" where
  "server_Stop w = ((emit EvServerStop w)\<lparr>serverRunning := False, subs := []\<rparr>, None)"

definition GetSubscribe :: "world \<Rightarrow> string \<Rightarrow> world \<times> (error + Stream)" where
  "GetSubscribe w k =
     (let w1 = emit (EvGetSubscribe k) w in
      case map_of (subs w) k of
        None \<Rightarrow> (w1, Inl ErrorSubscribeNotExists)
      | Some s \<Rightarrow> (w1, Inr s))"

definition Send :: "world \<Rightarrow> Stream \<Rightarrow> StreamMessage \<Rightarrow> world \<times> error option" where
  "Send w s m = (emit (EvSend (streamId s) m) w, sendErr s)"

section \<open>Tracing, time\<close>

text \<open>\<open>trace.PrintError\<close> prints; \<open>trace.TraceError\<close> prints and returns its argument.\<close>

definition PrintError :: "world \<Rightarrow> error \<Rightarrow> world" where
  "PrintError w e = emit (EvPrintError e) w"

definition TraceError :: "world \<Rightarrow> error \<Rightarrow> world \<times> error option" where
  "TraceError w e = (PrintError w e, Some e)"

text \<open>\<open>time.Sleep(d)\<close> returns at once when \<open>d\<close> is zero or negative.\<close>

definition Sleep :: "world \<Rightarrow> Duration \<Rightarrow> world" where
  "Sleep w d = (emit (EvSleep d) w)\<lparr>clock := clock w + max 0 (sint d)\<rparr>"

section \<open>The master service\<close>

text \<open>The setters of \<open>master_service.go\<close>.\<close>

definition SetConfigPath :: "string \<Rightarrow> MasterService \<Rightarrow> MasterService" where
  "SetConfigPath path svc = svc\<lparr>cfgPath := path\<rparr>"

definition SetAddress :: "string option \<Rightarrow> MasterService \<Rightarrow> MasterService" where
  "SetAddress a svc = svc\<lparr>address := a\<rparr>"

definition SetMonitorInterval :: "Duration \<Rightarrow> MasterService \<Rightarrow> MasterService" where
  "SetMonitorInterval duration svc = svc\<lparr>monitorInterval := duration\<rparr>"

definition StopOnError :: "MasterService \<Rightarrow> MasterService" where
  "StopOnError svc = svc\<lparr>stopOnError := True\<rparr>"

text \<open>
  \<open>NewMasterService\<close>: the defaults, then the options in order, then the dependency
  injection, whose four calls can each fail. \<open>config.DefaultConfigPath\<close> is not among
  the sources and is a parameter.
\<close>

record dig =
  provideServiceErr :: "error option"
  provideConfigErr :: "error option"
  provideServerErr :: "error option"
  invokeErr :: "error option"

definition NewMasterService ::
  "string \<Rightarrow> (MasterService \<Rightarrow> MasterService) list \<Rightarrow> dig \<Rightarrow> error + MasterService" where
  "NewMasterService DefaultConfigPath opts c =
     (let svc = fold (\<lambda>opt s. opt s) opts
                  \<lparr>cfgPath = DefaultConfigPath, address = None,
                   monitorInterval = 60 * Second, stopOnError = False\<rparr> in
      case provideServiceErr c of Some e \<Rightarrow> Inl e | None \<Rightarrow>
      (case provideConfigErr c of Some e \<Rightarrow> Inl e | None \<Rightarrow>
      (case provideServerErr c of Some e \<Rightarrow> Inl e | None \<Rightarrow>
      (case invokeErr c of Some e \<Rightarrow> Inl e | None \<Rightarrow> Inr svc))))"

text \<open>\<open>Register\<close>: absent is decided on the message of the lookup's error.\<close>

definition fresh_master :: "string \<Rightarrow> int \<Rightarrow> Node" where
  "fresh_master k now =
     \<lparr>Id = 0, Key = k, Name = k, IsMaster = True, Status = NodeStatusOnline,
      Enabled = True, Active = True, ActiveTs = now\<rparr>"

definition Register :: "world \<Rightarrow> world \<times> error option" where
  "Register w =
     (case GetNodeByKey w (nodeKey w) of
        (w1, Inl err) \<Rightarrow>
          if Error err = Error ErrNoDocuments
          then Add w1 (fresh_master (nodeKey w1) (clock w1))
          else (w1, Some err)
      | (w1, Inr node) \<Rightarrow> UpdateStatusOnline w1 node)"

definition updateMasterNodeStatus :: "world \<Rightarrow> world \<times> error option" where
  "updateMasterNodeStatus w =
     (case GetNodeByKey w (nodeKey w) of
        (w1, Inl err) \<Rightarrow> (w1, Some err)
      | (w1, Inr node) \<Rightarrow> UpdateStatusOnline w1 node)"

definition setWorkerNodeOffline :: "world \<Rightarrow> Node \<Rightarrow> world \<times> error option" where
  "setWorkerNodeOffline w n = UpdateStatusOffline w n"

text \<open>
  The body of the loop over the worker nodes in \<open>monitor\<close>, for one node: the world
  after it, and whether it sets the error flag.
\<close>

definition mark_offline :: "world \<Rightarrow> Node \<Rightarrow> world" where
  "mark_offline w n =
     (case setWorkerNodeOffline w n of
        (w1, Some e) \<Rightarrow> PrintError w1 e
      | (w1, None) \<Rightarrow> w1)"

definition probe :: "world \<Rightarrow> Node \<Rightarrow> world \<times> bool" where
  "probe w n =
     (case GetSubscribe w (Key n) of
        (w1, Inl err) \<Rightarrow> (mark_offline (PrintError w1 err) n, True)
      | (w1, Inr sub) \<Rightarrow>
          (case Send w1 sub \<lparr>Code = PING, NodeKey = nodeKey w1\<rparr> of
             (w2, Some err) \<Rightarrow> (mark_offline (emit (EvLogErrorf (Key n) err) w2) n, True)
           | (w2, None) \<Rightarrow> (w2, False)))"

fun monitor_nodes :: "world \<Rightarrow> Node list \<Rightarrow> bool \<Rightarrow> world \<times> bool" where
  "monitor_nodes w [] isErr = (w, isErr)"
| "monitor_nodes w (n # ns) isErr =
     (case probe w n of (w1, failed) \<Rightarrow> monitor_nodes w1 ns (isErr \<or> failed))"

definition monitor :: "world \<Rightarrow> world \<times> error option" where
  "monitor w =
     (case updateMasterNodeStatus w of
        (w1, Some err) \<Rightarrow> (w1, Some err)
      | (w1, None) \<Rightarrow>
          (case GetNodeList w1 (\<lambda>n. \<not> IsMaster n) of
             (w2, Inl err) \<Rightarrow> if err = ErrNoDocuments then (w2, None) else TraceError w2 err
           | (w2, Inr ns) \<Rightarrow>
               (case monitor_nodes w2 ns False of
                  (w3, isErr) \<Rightarrow>
                    if isErr then TraceError w3 ErrorNodeMonitorError else (w3, None))))"

definition Stop :: "world \<Rightarrow> world" where
  "Stop w = fst (server_Stop w)"

text \<open>
  \<open>Monitor\<close> is a loop without end; the first argument bounds the number of its
  iterations. The result says whether the loop has returned (\<open>True\<close>) or is still
  running when the bound is reached (\<open>False\<close>).
\<close>

fun Monitor :: "nat \<Rightarrow> MasterService \<Rightarrow> world \<Rightarrow> world \<times> bool" where
  "Monitor 0 svc w = (w, False)"
| "Monitor (Suc k) svc w =
     (case monitor w of
        (w1, Some err) \<Rightarrow>
          (let w2 = PrintError w1 err in
           if stopOnError svc then (Stop w2, True)
           else Monitor k svc (Sleep w2 (monitorInterval svc)))
      | (w1, None) \<Rightarrow> Monitor k svc (Sleep w1 (monitorInterval svc)))"

text \<open>
  \<open>Start\<close>: a failure of the server's start or of the registration panics (\<open>Some e\<close>).
  \<open>go svc.Monitor()\<close> starts the loop in a thread of its own; \<open>sched\<close> is the number of
  iterations that thread makes while the main thread is blocked in \<open>Wait\<close>.
\<close>

definition Wait :: "world \<Rightarrow> world" where
  "Wait w = emit EvWait w"

definition Start :: "nat \<Rightarrow> MasterService \<Rightarrow> world \<Rightarrow> world \<times> error option" where
  "Start sched svc w =
     (case server_Start w of
        (w1, Some err) \<Rightarrow> (w1, Some err)
      | (w1, None) \<Rightarrow>
          (case Register w1 of
             (w2, Some err) \<Rightarrow> (w2, Some err)
           | (w2, None) \<Rightarrow>
               (let w3 = emit EvGo w2;
                    w4 = fst (Monitor sched svc w3);
                    w5 = Wait w4
                in (Stop w5, None))))"

section \<open>Observing a run\<close>

text \<open>
  The condition of the two error branches of the loop in \<open>monitor\<close>: the key has no
  subscription, or the send on its stream fails.
\<close>

definition unreachable :: "world \<Rightarrow> string \<Rightarrow> bool" where
  "unreachable w k = (case map_of (subs w) k of None \<Rightarrow> True | Some s \<Rightarrow> sendErr s \<noteq> None)"

text \<open>The events recorded between two worlds; the keys looked up with \<open>GetSubscribe\<close>.\<close>

definition since :: "world \<Rightarrow> world \<Rightarrow> event list" where
  "since w w' = drop (length (events w)) (events w')"

fun subscribed :: "event \<Rightarrow> string list" where
  "subscribed (EvGetSubscribe k) = [k]"
| "subscribed _ = []"

definition subscribe_keys :: "event list \<Rightarrow> string list" where
  "subscribe_keys es = concat (map subscribed es)"

text \<open>
  A tick begins with the lookup of the master's row, the only lookup by key that
  \<open>monitor\<close> makes; \<open>quiet\<close> events are those that neither begin a tick nor sleep nor
  belong to \<open>Start\<close>.
\<close>

fun is_tick :: "event \<Rightarrow> bool" where
  "is_tick (EvGetNodeByKey _) = True"
| "is_tick _ = False"

fun is_sleep :: "event \<Rightarrow> bool" where
  "is_sleep (EvSleep _) = True"
| "is_sleep _ = False"

definition quiet :: "event \<Rightarrow> bool" where
  "quiet e = (\<not> is_tick e \<and> \<not> is_sleep e \<and> e \<noteq> EvGo \<and> e \<noteq> EvWait)"

text \<open>Whether every row of the master's key is a master row.\<close>

definition master_flag :: "world \<Rightarrow> bool" where
  "master_flag w = (\<forall>n\<in>set (nodes w). Key n = nodeKey w \<longrightarrow> IsMaster n)"

section \<open>Example inputs\<close>

text \<open>A master \<open>m1\<close> in front of an empty registry, no worker connected, no store failure.\<close>

definition world0 :: world where
  "world0 = \<lparr>nodeKey = ''m1'', nodes = [], nextId = 1, faults = [], subs = [],
     serverRunning = False, serverStartErr = None, clock = 1000, events = []\<rparr>"

definition registry_unavailable :: error where
  "registry_unavailable = ErrorNew ''registry unavailable''"

text \<open>An error that is not the driver's sentinel and has the sentinel's message.\<close>

definition lookalike :: error where
  "lookalike = ErrorNew ''mongo: no documents in result''"

definition dig_ok :: dig where
  "dig_ok = \<lparr>provideServiceErr = None, provideConfigErr = None, provideServerErr = None,
     invokeErr = None\<rparr>"

definition svc0 :: MasterService where
  "svc0 = \<lparr>cfgPath = ''conf'', address = None, monitorInterval = 60 * Second,
     stopOnError = False\<rparr>"

text \<open>
  A master \<open>m1\<close> and two workers, both online in the registry; \<open>w2\<close> is connected and
  its stream is open, \<open>w1\<close> has no subscription.
\<close>

definition master_node :: Node where
  "master_node = \<lparr>Id = 1, Key = ''m1'', Name = ''m1'', IsMaster = True,
     Status = NodeStatusOnline, Enabled = True, Active = True, ActiveTs = 1000\<rparr>"

definition worker :: "string \<Rightarrow> nat \<Rightarrow> Node" where
  "worker k i = \<lparr>Id = i, Key = k, Name = k, IsMaster = False,
     Status = NodeStatusOnline, Enabled = True, Active = True, ActiveTs = 900\<rparr>"

definition cluster :: world where
  "cluster = \<lparr>nodeKey = ''m1'', nodes = [master_node, worker ''w1'' 2, worker ''w2'' 3],
     nextId = 4, faults = [], subs = [(''w2'', \<lparr>streamId = 7, sendErr = None\<rparr>)],
     serverRunning = True, serverStartErr = None, clock = 2000, events = []\<rparr>"

text \<open>The same, the fourth call on the store failing (the update that sets \<open>w1\<close> offline).\<close>

definition cluster_update_fails :: world where
  "cluster_update_fails = cluster\<lparr>faults := [None, None, None, Some registry_unavailable]\<rparr>"

text \<open>The same, the first call on the store failing (the lookup of the master's row).\<close>

definition cluster_refresh_fails :: world where
  "cluster_refresh_fails = cluster\<lparr>faults := [Some registry_unavailable]\<rparr>"

text \<open>The cluster with the master's row only; the cluster whose enumeration reports no documents.\<close>

definition cluster_no_workers :: world where
  "cluster_no_workers = cluster\<lparr>nodes := [master_node]\<rparr>"

definition cluster_no_documents :: world where
  "cluster_no_documents = cluster\<lparr>faults := [None, None, Some ErrNoDocuments]\<rparr>"

text \<open>The empty registry whose lookup fails with the lookalike error.\<close>

definition world0_lookalike :: world where
  "world0_lookalike = world0\<lparr>faults := [Some lookalike]\<rparr>"

text \<open>The empty registry, with a stream server that cannot start.\<close>

definition world0_port_taken :: world where
  "world0_port_taken = world0\<lparr>serverStartErr := Some (ErrorNew ''address already in use'')\<rparr>"

text \<open>A registry whose only row has the master's key and is not a master row.\<close>

definition world_role :: world where
  "world_role = world0\<lparr>nodes := [worker ''m1'' 1], nextId := 2\<rparr>"

section \<open>The effect of each call\<close>

lemma emit_fields [simp]:
  "nodeKey (emit e w) = nodeKey w" "nodes (emit e w) = nodes w" "nextId (emit e w) = nextId w"
  "faults (emit e w) = faults w" "subs (emit e w) = subs w"
  "serverRunning (emit e w) = serverRunning w" "serverStartErr (emit e w) = serverStartErr w"
  "clock (emit e w) = clock w" "events (emit e w) = events w @ [e]" "fault (emit e w) = fault w"
  by (simp_all add: emit_def fault_def)

lemma consume_fields [simp]:
  "nodeKey (consume w) = nodeKey w" "nodes (consume w) = nodes w" "nextId (consume w) = nextId w"
  "faults (consume w) = drop 1 (faults w)" "subs (consume w) = subs w"
  "serverRunning (consume w) = serverRunning w" "serverStartErr (consume w) = serverStartErr w"
  "clock (consume w) = clock w" "events (consume w) = events w"
  by (simp_all add: consume_def)

lemma find_None_keys: "(find (\<lambda>n. Key n = k) ns = None) = (k \<notin> Key ` set ns)"
  by (induction ns) auto

lemma find_Some_key: "find (\<lambda>n. Key n = k) ns = Some n \<Longrightarrow> Key n = k \<and> n \<in> set ns"
  by (induction ns) (auto split: if_splits)

lemma GetNodeByKey_fst [simp]: "fst (GetNodeByKey w k) = consume (emit (EvGetNodeByKey k) w)"
  by (simp add: GetNodeByKey_def Let_def split: option.splits)

lemma GetNodeByKey_snd:
  "snd (GetNodeByKey w k) =
     (case fault w of Some e \<Rightarrow> Inl e
      | None \<Rightarrow> (case find (\<lambda>n. Key n = k) (nodes w) of None \<Rightarrow> Inl ErrNoDocuments | Some n \<Rightarrow> Inr n))"
  by (simp add: GetNodeByKey_def Let_def split: option.splits)

lemma GetNodeByKey_Inr:
  "snd (GetNodeByKey w k) = Inr n \<Longrightarrow> fault w = None \<and> Key n = k \<and> n \<in> set (nodes w)"
  by (auto simp: GetNodeByKey_snd split: option.splits dest: find_Some_key)

lemma GetNodeByKey_Inl:
  "snd (GetNodeByKey w k) = Inl e \<Longrightarrow>
   fault w = Some e \<or> (fault w = None \<and> e = ErrNoDocuments \<and> k \<notin> Key ` set (nodes w))"
  by (auto simp: GetNodeByKey_snd find_None_keys split: option.splits)

lemma fault_consume_emit [simp]: "fault (consume (emit e w)) = fault (consume w)"
  by (simp add: fault_def)

lemma GetNodeList_fst [simp]: "fst (GetNodeList w f) = consume (emit EvGetNodeList w)"
  by (simp add: GetNodeList_def Let_def split: option.splits)

lemma GetNodeList_snd:
  "snd (GetNodeList w f) = (case fault w of Some e \<Rightarrow> Inl e | None \<Rightarrow> Inr (filter f (nodes w)))"
  by (simp add: GetNodeList_def Let_def split: option.splits)

lemma Add_snd:
  "snd (Add w n) =
     (case fault w of Some e \<Rightarrow> Some e
      | None \<Rightarrow> if Key n \<in> set (map Key (nodes w)) then Some ErrorDuplicateKey else None)"
  by (simp add: Add_def Let_def split: option.splits)

lemma Add_fields [simp]:
  "nodeKey (fst (Add w n)) = nodeKey w" "faults (fst (Add w n)) = drop 1 (faults w)"
  "subs (fst (Add w n)) = subs w" "serverRunning (fst (Add w n)) = serverRunning w"
  "serverStartErr (fst (Add w n)) = serverStartErr w" "clock (fst (Add w n)) = clock w"
  "events (fst (Add w n)) = events w @ [EvAdd (Key n)]"
  by (simp_all add: Add_def Let_def split: option.splits)

lemma Add_nodes:
  "nodes (fst (Add w n)) =
     (if snd (Add w n) = None then nodes w @ [n\<lparr>Id := nextId w\<rparr>] else nodes w)"
  by (simp add: Add_def Let_def split: option.splits)

lemma UpdateStatus_snd:
  "snd (UpdateStatus w k st) =
     (case fault w of Some e \<Rightarrow> Some e
      | None \<Rightarrow> if k \<notin> set (map Key (nodes w)) then Some ErrNoDocuments else None)"
  by (simp add: UpdateStatus_def Let_def split: option.splits)

lemma UpdateStatus_fields [simp]:
  "nodeKey (fst (UpdateStatus w k st)) = nodeKey w"
  "nextId (fst (UpdateStatus w k st)) = nextId w"
  "faults (fst (UpdateStatus w k st)) = drop 1 (faults w)"
  "subs (fst (UpdateStatus w k st)) = subs w"
  "serverRunning (fst (UpdateStatus w k st)) = serverRunning w"
  "serverStartErr (fst (UpdateStatus w k st)) = serverStartErr w"
  "clock (fst (UpdateStatus w k st)) = clock w"
  "events (fst (UpdateStatus w k st)) = events w @ [EvUpdateStatus k st]"
  by (simp_all add: UpdateStatus_def Let_def split: option.splits)

lemma UpdateStatus_nodes:
  "nodes (fst (UpdateStatus w k st)) =
     (if snd (UpdateStatus w k st) = None
      then map (\<lambda>n. if Key n = k then set_status (clock w) st n else n) (nodes w)
      else nodes w)"
  by (simp add: UpdateStatus_def Let_def split: option.splits)

lemma Key_set_status [simp]: "Key (set_status c st n) = Key n"
  by (simp add: set_status_def split: node_status.splits)

lemma IsMaster_set_status [simp]: "IsMaster (set_status c st n) = IsMaster n"
  by (simp add: set_status_def split: node_status.splits)

lemma Status_set_status [simp]: "Status (set_status c st n) = st"
  by (simp add: set_status_def split: node_status.splits)

lemma UpdateStatus_keys [simp]:
  "map Key (nodes (fst (UpdateStatus w k st))) = map Key (nodes w)"
  by (simp add: UpdateStatus_nodes comp_def if_distrib cong: if_cong)

lemma Register_eq:
  "Register w =
     (case snd (GetNodeByKey w (nodeKey w)) of
        Inl err \<Rightarrow> if Error err = Error ErrNoDocuments
                   then Add (consume (emit (EvGetNodeByKey (nodeKey w)) w))
                          (fresh_master (nodeKey w) (clock w))
                   else (consume (emit (EvGetNodeByKey (nodeKey w)) w), Some err)
      | Inr node \<Rightarrow>
          UpdateStatus (consume (emit (EvGetNodeByKey (nodeKey w)) w)) (Key node) NodeStatusOnline)"
  by (simp add: Register_def UpdateStatusOnline_def Let_def case_prod_beta split: sum.splits)

lemma Register_nodeKey [simp]: "nodeKey (fst (Register w)) = nodeKey w"
  by (simp add: Register_eq Let_def split: sum.splits)

lemma Register_distinct:
  "distinct (map Key (nodes w)) \<Longrightarrow> distinct (map Key (nodes (fst (Register w))))"
  by (auto simp: Register_eq Let_def Add_nodes Add_snd fresh_master_def split: sum.splits option.splits if_splits)

lemma Register_nodes_cases:
  "nodes (fst (Register w)) = nodes w
   \<or> (nodeKey w \<notin> Key ` set (nodes w)
       \<and> nodes (fst (Register w)) = nodes w @ [(fresh_master (nodeKey w) (clock w))\<lparr>Id := nextId w\<rparr>])
   \<or> nodes (fst (Register w)) =
        map (\<lambda>n. if Key n = nodeKey w then set_status (clock w) NodeStatusOnline n else n) (nodes w)"
proof (cases "snd (GetNodeByKey w (nodeKey w))")
  case (Inl e)
  show ?thesis
  proof (cases "Error e = Error ErrNoDocuments")
    case True
    with Inl show ?thesis
      by (auto simp: Register_eq Add_nodes Add_snd fresh_master_def split: option.splits if_splits)
  next
    case False
    with Inl show ?thesis by (simp add: Register_eq)
  qed
next
  case (Inr node)
  then have "Key node = nodeKey w" using GetNodeByKey_Inr by blast
  with Inr show ?thesis by (auto simp: Register_eq UpdateStatus_nodes)
qed

lemma master_rows_map:
  assumes "\<And>n. Key (f n) = Key n" "\<And>n. IsMaster (f n) = IsMaster n"
  shows "(\<forall>n\<in>set (map f ns). Key n = k \<longrightarrow> IsMaster n) = (\<forall>n\<in>set ns. Key n = k \<longrightarrow> IsMaster n)"
  by (simp add: assms)

lemma Register_master_flag: "master_flag (fst (Register w)) = master_flag w"
proof -
  let ?f = "\<lambda>n. if Key n = nodeKey w then set_status (clock w) NodeStatusOnline n else n"
  consider (same) "nodes (fst (Register w)) = nodes w"
    | (added) "nodeKey w \<notin> Key ` set (nodes w)"
        "nodes (fst (Register w)) = nodes w @ [(fresh_master (nodeKey w) (clock w))\<lparr>Id := nextId w\<rparr>]"
    | (updated) "nodes (fst (Register w)) = map ?f (nodes w)"
    using Register_nodes_cases[of w] by blast
  then show ?thesis
  proof cases
    case same
    then show ?thesis by (simp add: master_flag_def)
  next
    case added
    then show ?thesis by (auto simp: master_flag_def fresh_master_def)
  next
    case updated
    have "(\<forall>n\<in>set (map ?f (nodes w)). Key n = nodeKey w \<longrightarrow> IsMaster n)
        = (\<forall>n\<in>set (nodes w). Key n = nodeKey w \<longrightarrow> IsMaster n)"
      by (rule master_rows_map) simp_all
    with updated show ?thesis by (simp add: master_flag_def)
  qed
qed

lemma distinct_key_rows:
  "distinct (map Key ns) \<Longrightarrow> n \<in> set ns \<Longrightarrow> m \<in> set ns \<Longrightarrow> Key n = Key m \<Longrightarrow> n = m"
  by (metis distinct_map inj_onD)

lemma master_flag_row:
  assumes "distinct (map Key (nodes w))" "m \<in> set (nodes w)" "Key m = nodeKey w"
  shows "IsMaster m = master_flag w"
  using assms distinct_key_rows[OF assms(1)] unfolding master_flag_def by metis

lemma Register_ok_online:
  assumes ok: "snd (Register w) = None"
  shows "(\<exists>n\<in>set (nodes (fst (Register w))). Key n = nodeKey w) \<and>
   (\<forall>n\<in>set (nodes (fst (Register w))). Key n = nodeKey w \<longrightarrow> Status n = NodeStatusOnline)"
proof (cases "snd (GetNodeByKey w (nodeKey w))")
  case (Inl e)
  let ?w1 = "consume (emit (EvGetNodeByKey (nodeKey w)) w)"
  let ?n = "fresh_master (nodeKey w) (clock w)"
  from ok Inl have msg: "Error e = Error ErrNoDocuments"
    by (auto simp: Register_eq split: if_splits)
  with Inl have R: "Register w = Add ?w1 ?n" by (simp add: Register_eq)
  with ok have "snd (Add ?w1 ?n) = None" by simp
  then have absent: "nodeKey w \<notin> Key ` set (nodes w)"
    and ns: "nodes (fst (Add ?w1 ?n)) = nodes w @ [?n\<lparr>Id := nextId w\<rparr>]"
    by (auto simp: Add_snd Add_nodes fresh_master_def split: option.splits if_splits)
  from absent have "\<forall>n\<in>set (nodes w). Key n \<noteq> nodeKey w" by (metis imageI)
  with R ns show ?thesis by (auto simp: fresh_master_def)
next
  case (Inr node)
  let ?w1 = "consume (emit (EvGetNodeByKey (nodeKey w)) w)"
  from Inr have node: "Key node = nodeKey w" "node \<in> set (nodes w)"
    using GetNodeByKey_Inr by blast+
  from Inr have R: "Register w = UpdateStatus ?w1 (Key node) NodeStatusOnline"
    by (simp add: Register_eq)
  with ok have "snd (UpdateStatus ?w1 (Key node) NodeStatusOnline) = None" by simp
  then have ns: "nodes (fst (Register w)) =
      map (\<lambda>n. if Key n = nodeKey w then set_status (clock w) NodeStatusOnline n else n) (nodes w)"
    using R node by (simp add: UpdateStatus_nodes)
  have "set_status (clock w) NodeStatusOnline node \<in> set (nodes (fst (Register w)))"
    using node unfolding ns by force
  moreover have "\<forall>n\<in>set (nodes (fst (Register w))). Key n = nodeKey w \<longrightarrow> Status n = NodeStatusOnline"
    unfolding ns by auto
  ultimately show ?thesis by (metis Key_set_status node(1))
qed

lemma filter_key_single:
  "distinct (map Key ns) \<Longrightarrow> m \<in> set ns \<Longrightarrow> filter (\<lambda>n. Key n = Key m) ns = [m]"
proof (induction ns)
  case Nil then show ?case by simp
next
  case (Cons a ns)
  show ?case
  proof (cases "a = m")
    case True
    with Cons.prems have "Key m \<notin> Key ` set ns" by simp
    then have "\<forall>n\<in>set ns. Key n \<noteq> Key m" by (metis imageI)
    then have "filter (\<lambda>n. Key n = Key m) ns = []" by (simp add: filter_empty_conv)
    with True show ?thesis by simp
  next
    case False
    with Cons.prems have "m \<in> set ns" "Key a \<noteq> Key m" by auto
    with Cons show ?thesis by simp
  qed
qed

lemmas eval_defs = Register_def GetNodeByKey_def Add_def UpdateStatusOnline_def
  UpdateStatus_def emit_def consume_def fault_def fresh_master_def set_status_def Let_def

lemma subscribe_keys_simps [simp]:
  "subscribe_keys [] = []"
  "subscribe_keys (e # es) = subscribed e @ subscribe_keys es"
  "subscribe_keys (es @ es') = subscribe_keys es @ subscribe_keys es'"
  by (simp_all add: subscribe_keys_def)

lemma PrintError_fields [simp]:
  "nodeKey (PrintError w e) = nodeKey w" "nodes (PrintError w e) = nodes w"
  "faults (PrintError w e) = faults w" "subs (PrintError w e) = subs w"
  "clock (PrintError w e) = clock w" "events (PrintError w e) = events w @ [EvPrintError e]"
  "fault (PrintError w e) = fault w"
  by (simp_all add: PrintError_def)

lemma mark_offline_eq:
  "mark_offline w n =
     (case snd (UpdateStatus w (Key n) NodeStatusOffline) of
        Some e \<Rightarrow> PrintError (fst (UpdateStatus w (Key n) NodeStatusOffline)) e
      | None \<Rightarrow> fst (UpdateStatus w (Key n) NodeStatusOffline))"
  by (simp add: mark_offline_def setWorkerNodeOffline_def UpdateStatusOffline_def case_prod_beta)

lemma mark_offline_fields [simp]:
  "nodeKey (mark_offline w n) = nodeKey w" "subs (mark_offline w n) = subs w"
  "clock (mark_offline w n) = clock w" "faults (mark_offline w n) = drop 1 (faults w)"
  by (simp_all add: mark_offline_eq split: option.splits)

lemma mark_offline_nodes:
  "nodes (mark_offline w n) =
     (if snd (UpdateStatus w (Key n) NodeStatusOffline) = None
      then map (\<lambda>m. if Key m = Key n then set_status (clock w) NodeStatusOffline m else m) (nodes w)
      else nodes w)"
  by (simp add: mark_offline_eq UpdateStatus_nodes split: option.splits)

lemma mark_offline_events:
  "\<exists>es. events (mark_offline w n) = events w @ EvUpdateStatus (Key n) NodeStatusOffline # es
        \<and> subscribe_keys es = []"
  by (simp add: mark_offline_eq split: option.splits)

lemma probe_eq:
  "probe w n =
     (case map_of (subs w) (Key n) of
        None \<Rightarrow> (mark_offline (PrintError (emit (EvGetSubscribe (Key n)) w) ErrorSubscribeNotExists) n, True)
      | Some s \<Rightarrow>
          (case sendErr s of
             Some err \<Rightarrow>
               (mark_offline
                  (emit (EvLogErrorf (Key n) err)
                     (emit (EvSend (streamId s) \<lparr>Code = PING, NodeKey = nodeKey w\<rparr>)
                        (emit (EvGetSubscribe (Key n)) w))) n, True)
           | None \<Rightarrow>
               (emit (EvSend (streamId s) \<lparr>Code = PING, NodeKey = nodeKey w\<rparr>)
                  (emit (EvGetSubscribe (Key n)) w), False)))"
  by (simp add: probe_def GetSubscribe_def Send_def Let_def split: option.splits)

lemma probe_snd: "snd (probe w n) = unreachable w (Key n)"
  by (simp add: probe_eq unreachable_def split: option.splits)

lemma probe_fields [simp]:
  "nodeKey (fst (probe w n)) = nodeKey w" "subs (fst (probe w n)) = subs w"
  "clock (fst (probe w n)) = clock w"
  by (simp_all add: probe_eq split: option.splits)

lemma probe_faults:
  "faults (fst (probe w n)) = (if unreachable w (Key n) then drop 1 (faults w) else faults w)"
  by (simp add: probe_eq unreachable_def split: option.splits)

lemma probe_nodes_reachable:
  "\<not> unreachable w (Key n) \<Longrightarrow> nodes (fst (probe w n)) = nodes w"
  by (simp add: probe_eq unreachable_def split: option.splits)

lemma probe_nodes_unreachable:
  "unreachable w (Key n) \<Longrightarrow> nodes (fst (probe w n)) =
     (if fault w = None \<and> Key n \<in> Key ` set (nodes w)
      then map (\<lambda>m. if Key m = Key n then set_status (clock w) NodeStatusOffline m else m) (nodes w)
      else nodes w)"
  by (auto simp: probe_eq unreachable_def mark_offline_nodes UpdateStatus_snd split: option.splits)

lemma probe_events:
  "\<exists>es. events (fst (probe w n)) = events w @ EvGetSubscribe (Key n) # es
        \<and> subscribe_keys es = []
        \<and> (unreachable w (Key n) \<longrightarrow> EvUpdateStatus (Key n) NodeStatusOffline \<in> set es)"
proof (cases "map_of (subs w) (Key n)")
  case None
  obtain es where "events (mark_offline (PrintError (emit (EvGetSubscribe (Key n)) w) ErrorSubscribeNotExists) n)
      = events (PrintError (emit (EvGetSubscribe (Key n)) w) ErrorSubscribeNotExists)
        @ EvUpdateStatus (Key n) NodeStatusOffline # es" "subscribe_keys es = []"
    using mark_offline_events by blast
  with None show ?thesis by (simp add: probe_eq)
next
  case (Some s)
  show ?thesis
  proof (cases "sendErr s")
    case None
    with Some show ?thesis by (simp add: probe_eq unreachable_def)
  next
    case (Some err)
    let ?w = "emit (EvLogErrorf (Key n) err)
                     (emit (EvSend (streamId s) \<lparr>Code = PING, NodeKey = nodeKey w\<rparr>)
                        (emit (EvGetSubscribe (Key n)) w))"
    obtain es where "events (mark_offline ?w n)
      = events ?w @ EvUpdateStatus (Key n) NodeStatusOffline # es" "subscribe_keys es = []"
      using mark_offline_events by blast
    with Some \<open>map_of (subs w) (Key n) = Some s\<close> show ?thesis by (simp add: probe_eq)
  qed
qed

lemma monitor_nodes_fields [simp]:
  "nodeKey (fst (monitor_nodes w ns b)) = nodeKey w"
  "subs (fst (monitor_nodes w ns b)) = subs w"
  "clock (fst (monitor_nodes w ns b)) = clock w"
  by (induction ns arbitrary: w b; simp add: case_prod_beta)+

lemma unreachable_cong: "subs w' = subs w \<Longrightarrow> unreachable w' k = unreachable w k"
  by (simp add: unreachable_def)

lemma monitor_nodes_snd:
  "snd (monitor_nodes w ns b) = (b \<or> (\<exists>n\<in>set ns. unreachable w (Key n)))"
proof (induction ns arbitrary: w b)
  case Nil then show ?case by simp
next
  case (Cons n ns)
  have "\<And>k. unreachable (fst (probe w n)) k = unreachable w k"
    by (rule unreachable_cong) simp
  with Cons show ?case by (auto simp: case_prod_beta probe_snd)
qed

lemma monitor_nodes_events:
  "\<exists>es. events (fst (monitor_nodes w ns b)) = events w @ es
        \<and> subscribe_keys es = map Key ns
        \<and> (\<forall>n\<in>set ns. unreachable w (Key n) \<longrightarrow> EvUpdateStatus (Key n) NodeStatusOffline \<in> set es)"
proof (induction ns arbitrary: w b)
  case Nil then show ?case by simp
next
  case (Cons n ns)
  let ?w1 = "fst (probe w n)"
  let ?b1 = "b \<or> snd (probe w n)"
  have un: "\<And>k. unreachable ?w1 k = unreachable w k"
    by (rule unreachable_cong) simp
  obtain es1 where es1: "events ?w1 = events w @ EvGetSubscribe (Key n) # es1"
    "subscribe_keys es1 = []"
    "unreachable w (Key n) \<longrightarrow> EvUpdateStatus (Key n) NodeStatusOffline \<in> set es1"
    using probe_events by blast
  obtain es where es: "events (fst (monitor_nodes ?w1 ns ?b1)) = events ?w1 @ es"
    "subscribe_keys es = map Key ns"
    "\<forall>m\<in>set ns. unreachable ?w1 (Key m) \<longrightarrow> EvUpdateStatus (Key m) NodeStatusOffline \<in> set es"
    using Cons.IH by blast
  have "events (fst (monitor_nodes w (n # ns) b)) = events w @ (EvGetSubscribe (Key n) # es1 @ es)"
    using es1 es by (simp add: case_prod_beta)
  moreover have "subscribe_keys (EvGetSubscribe (Key n) # es1 @ es) = map Key (n # ns)"
    using es1 es by simp
  moreover have "\<forall>m\<in>set (n # ns). unreachable w (Key m) \<longrightarrow>
      EvUpdateStatus (Key m) NodeStatusOffline \<in> set (EvGetSubscribe (Key n) # es1 @ es)"
    using es1 es un by auto
  ultimately show ?case by blast
qed

lemma monitor_nodes_offline:
  "set (faults w) \<subseteq> {None} \<Longrightarrow>
   \<forall>m\<in>set (nodes w). Key m \<in> K \<longrightarrow> Status m = NodeStatusOffline \<Longrightarrow>
   \<forall>m\<in>set (nodes (fst (monitor_nodes w ns b))).
      Key m \<in> K \<union> {Key n |n. n \<in> set ns \<and> unreachable w (Key n)} \<longrightarrow> Status m = NodeStatusOffline"
proof (induction ns arbitrary: w b K)
  case Nil then show ?case by simp
next
  case (Cons n ns)
  let ?w1 = "fst (probe w n)"
  let ?b1 = "b \<or> snd (probe w n)"
  let ?K1 = "if unreachable w (Key n) then insert (Key n) K else K"
  have un: "\<And>k. unreachable ?w1 k = unreachable w k"
    by (rule unreachable_cong) simp
  have f1: "set (faults ?w1) \<subseteq> {None}"
    using Cons.prems(1) set_drop_subset[of 1 "faults w"] by (auto simp: probe_faults)
  have f0: "fault w = None"
    using Cons.prems(1) by (cases "faults w") (auto simp: fault_def)
  have inv: "\<forall>m\<in>set (nodes ?w1). Key m \<in> ?K1 \<longrightarrow> Status m = NodeStatusOffline"
  proof (cases "unreachable w (Key n)")
    case False
    with Cons.prems(2) show ?thesis by (simp add: probe_nodes_reachable)
  next
    case True
    show ?thesis
    proof (cases "Key n \<in> Key ` set (nodes w)")
      case in_reg: True
      with True f0 Cons.prems(2) show ?thesis by (auto simp: probe_nodes_unreachable)
    next
      case False
      then have "\<forall>m\<in>set (nodes w). Key m \<noteq> Key n" by (metis imageI)
      with False True f0 Cons.prems(2) show ?thesis by (auto simp: probe_nodes_unreachable)
    qed
  qed
  have "\<forall>m\<in>set (nodes (fst (monitor_nodes ?w1 ns ?b1))).
      Key m \<in> ?K1 \<union> {Key n |n. n \<in> set ns \<and> unreachable ?w1 (Key n)} \<longrightarrow> Status m = NodeStatusOffline"
    using Cons.IH[OF f1 inv] .
  then show ?case by (auto simp: case_prod_beta un split: if_splits)
qed

lemma updateMasterNodeStatus_eq:
  "updateMasterNodeStatus w =
     (case snd (GetNodeByKey w (nodeKey w)) of
        Inl err \<Rightarrow> (consume (emit (EvGetNodeByKey (nodeKey w)) w), Some err)
      | Inr node \<Rightarrow>
          UpdateStatus (consume (emit (EvGetNodeByKey (nodeKey w)) w)) (Key node) NodeStatusOnline)"
  by (simp add: updateMasterNodeStatus_def UpdateStatusOnline_def case_prod_beta split: sum.splits)

lemma updateMasterNodeStatus_fields [simp]:
  "nodeKey (fst (updateMasterNodeStatus w)) = nodeKey w"
  "subs (fst (updateMasterNodeStatus w)) = subs w"
  "clock (fst (updateMasterNodeStatus w)) = clock w"
  by (simp_all add: updateMasterNodeStatus_eq split: sum.splits)

lemma updateMasterNodeStatus_events:
  "\<exists>es. events (fst (updateMasterNodeStatus w)) = events w @ EvGetNodeByKey (nodeKey w) # es
        \<and> subscribe_keys es = [] \<and> EvGetNodeList \<notin> set es"
  by (simp add: updateMasterNodeStatus_eq split: sum.splits)

lemma updateMasterNodeStatus_failed:
  "snd (updateMasterNodeStatus w) = Some e \<Longrightarrow> nodes (fst (updateMasterNodeStatus w)) = nodes w"
  by (auto simp: updateMasterNodeStatus_eq UpdateStatus_nodes split: sum.splits)

lemma filter_map_other:
  "k \<noteq> k' \<Longrightarrow> filter (\<lambda>m. Key m = k) (map (\<lambda>m. if Key m = k' then set_status c st m else m) ns)
     = filter (\<lambda>m. Key m = k) ns"
  by (induction ns) auto

lemma updateMasterNodeStatus_others:
  "k \<noteq> nodeKey w \<Longrightarrow>
   filter (\<lambda>m. Key m = k) (nodes (fst (updateMasterNodeStatus w))) = filter (\<lambda>m. Key m = k) (nodes w)"
  by (auto simp: updateMasterNodeStatus_eq UpdateStatus_nodes filter_map_other
      dest!: GetNodeByKey_Inr split: sum.splits)

lemma probe_others:
  "\<not> unreachable w k \<Longrightarrow>
   filter (\<lambda>m. Key m = k) (nodes (fst (probe w n))) = filter (\<lambda>m. Key m = k) (nodes w)"
proof (cases "unreachable w (Key n)")
  case False
  then show ?thesis by (simp add: probe_nodes_reachable)
next
  case True
  assume "\<not> unreachable w k"
  with True have "k \<noteq> Key n" by auto
  with True show ?thesis by (simp add: probe_nodes_unreachable filter_map_other)
qed

lemma monitor_nodes_others:
  "\<not> unreachable w k \<Longrightarrow>
   filter (\<lambda>m. Key m = k) (nodes (fst (monitor_nodes w ns b))) = filter (\<lambda>m. Key m = k) (nodes w)"
proof (induction ns arbitrary: w b)
  case Nil then show ?case by simp
next
  case (Cons n ns)
  have "unreachable (fst (probe w n)) k = unreachable w k"
    by (rule unreachable_cong) simp
  with Cons.prems have "\<not> unreachable (fst (probe w n)) k" by simp
  from Cons.IH[OF this] Cons.prems show ?case
    by (simp add: case_prod_beta probe_others)
qed

lemma monitor_eq:
  "monitor w =
     (case snd (updateMasterNodeStatus w) of
        Some err \<Rightarrow> (fst (updateMasterNodeStatus w), Some err)
      | None \<Rightarrow>
          (case snd (GetNodeList (fst (updateMasterNodeStatus w)) (\<lambda>n. \<not> IsMaster n)) of
             Inl err \<Rightarrow>
               if err = ErrNoDocuments
               then (consume (emit EvGetNodeList (fst (updateMasterNodeStatus w))), None)
               else TraceError (consume (emit EvGetNodeList (fst (updateMasterNodeStatus w)))) err
           | Inr ns \<Rightarrow>
               if snd (monitor_nodes (consume (emit EvGetNodeList (fst (updateMasterNodeStatus w)))) ns False)
               then TraceError (fst (monitor_nodes (consume (emit EvGetNodeList (fst (updateMasterNodeStatus w)))) ns False))
                      ErrorNodeMonitorError
               else (fst (monitor_nodes (consume (emit EvGetNodeList (fst (updateMasterNodeStatus w)))) ns False), None)))"
  by (simp add: monitor_def case_prod_beta split: option.splits sum.splits)

lemma TraceError_simps [simp]:
  "fst (TraceError w e) = PrintError w e" "snd (TraceError w e) = Some e"
  by (simp_all add: TraceError_def)

lemma monitor_fields [simp]:
  "nodeKey (fst (monitor w)) = nodeKey w"
  "subs (fst (monitor w)) = subs w"
  "clock (fst (monitor w)) = clock w"
  by (simp_all add: monitor_eq split: option.splits sum.splits)

text \<open>A tick that reaches the loop over the workers.\<close>

lemma monitor_loop:
  assumes u: "updateMasterNodeStatus w = (w1, None)"
    and l: "GetNodeList w1 (\<lambda>n. \<not> IsMaster n) = (w2, Inr ns)"
  shows "monitor w =
     (if snd (monitor_nodes w2 ns False)
      then TraceError (fst (monitor_nodes w2 ns False)) ErrorNodeMonitorError
      else (fst (monitor_nodes w2 ns False), None))"
    and "subs w2 = subs w"
    and "\<exists>es. events w2 = events w @ es \<and> subscribe_keys es = []"
proof -
  from u have u': "fst (updateMasterNodeStatus w) = w1" "snd (updateMasterNodeStatus w) = None"
    by simp_all
  from l have l': "consume (emit EvGetNodeList w1) = w2"
    "snd (GetNodeList w1 (\<lambda>n. \<not> IsMaster n)) = Inr ns"
    using GetNodeList_fst[of w1 "\<lambda>n. \<not> IsMaster n"] by simp_all
  show "monitor w =
     (if snd (monitor_nodes w2 ns False)
      then TraceError (fst (monitor_nodes w2 ns False)) ErrorNodeMonitorError
      else (fst (monitor_nodes w2 ns False), None))"
    by (simp add: monitor_eq u' l')
  show "subs w2 = subs w"
    using updateMasterNodeStatus_fields(2)[of w] u' l' by auto
  obtain es where "events w1 = events w @ EvGetNodeByKey (nodeKey w) # es" "subscribe_keys es = []"
    using updateMasterNodeStatus_events[of w] u' by auto
  then have "events w2 = events w @ (EvGetNodeByKey (nodeKey w) # es @ [EvGetNodeList])
      \<and> subscribe_keys (EvGetNodeByKey (nodeKey w) # es @ [EvGetNodeList]) = []"
    using l' by auto
  then show "\<exists>es. events w2 = events w @ es \<and> subscribe_keys es = []" by blast
qed

lemma since_append [simp]: "events w' = events w @ es \<Longrightarrow> since w w' = es"
  by (simp add: since_def)

lemma Sleep_fields [simp]:
  "nodeKey (Sleep w d) = nodeKey w" "nodes (Sleep w d) = nodes w" "subs (Sleep w d) = subs w"
  "faults (Sleep w d) = faults w" "events (Sleep w d) = events w @ [EvSleep d]"
  "serverRunning (Sleep w d) = serverRunning w"
  by (simp_all add: Sleep_def)

lemma Stop_fields [simp]:
  "nodeKey (Stop w) = nodeKey w" "nodes (Stop w) = nodes w" "subs (Stop w) = []"
  "faults (Stop w) = faults w" "events (Stop w) = events w @ [EvServerStop]"
  "serverRunning (Stop w) = False" "clock (Stop w) = clock w"
  by (simp_all add: Stop_def server_Stop_def)

lemma monitor_others:
  assumes "k \<noteq> nodeKey w" "\<not> unreachable w k"
  shows "filter (\<lambda>m. Key m = k) (nodes (fst (monitor w))) = filter (\<lambda>m. Key m = k) (nodes w)"
proof -
  let ?w1 = "fst (updateMasterNodeStatus w)"
  let ?w2 = "consume (emit EvGetNodeList ?w1)"
  have 1: "filter (\<lambda>m. Key m = k) (nodes ?w2) = filter (\<lambda>m. Key m = k) (nodes w)"
    using assms(1) by (simp add: updateMasterNodeStatus_others)
  have "unreachable ?w2 k = unreachable w k" by (rule unreachable_cong) simp
  with assms(2) have "\<And>ns. filter (\<lambda>m. Key m = k) (nodes (fst (monitor_nodes ?w2 ns False)))
      = filter (\<lambda>m. Key m = k) (nodes ?w2)"
    by (simp add: monitor_nodes_others)
  with 1 show ?thesis
    using assms(1) by (simp add: monitor_eq updateMasterNodeStatus_others split: option.splits sum.splits)
qed

lemmas tick_defs = monitor_def updateMasterNodeStatus_def GetNodeList_def probe_def
  mark_offline_def setWorkerNodeOffline_def UpdateStatusOffline_def GetSubscribe_def Send_def
  PrintError_def TraceError_def unreachable_def since_def

lemmas ex_defs = cluster_def master_node_def worker_def registry_unavailable_def

lemma quiet_simps [simp]:
  "quiet (EvUpdateStatus k st)" "quiet (EvPrintError e)" "quiet (EvLogErrorf k e)"
  "quiet (EvGetSubscribe k)" "quiet (EvSend i m)" "quiet EvGetNodeList" "quiet EvServerStop"
  by (simp_all add: quiet_def)

lemma mark_offline_quiet:
  "\<exists>es. events (mark_offline w n) = events w @ es \<and> (\<forall>e\<in>set es. quiet e)"
  by (simp add: mark_offline_eq split: option.splits)

lemma probe_quiet:
  "\<exists>es. events (fst (probe w n)) = events w @ es \<and> (\<forall>e\<in>set es. quiet e)"
proof (cases "map_of (subs w) (Key n)")
  case None
  obtain es where "events (mark_offline (PrintError (emit (EvGetSubscribe (Key n)) w) ErrorSubscribeNotExists) n)
      = events (PrintError (emit (EvGetSubscribe (Key n)) w) ErrorSubscribeNotExists) @ es"
    "\<forall>e\<in>set es. quiet e"
    using mark_offline_quiet by blast
  with None show ?thesis by (simp add: probe_eq)
next
  case (Some s)
  show ?thesis
  proof (cases "sendErr s")
    case None
    with Some show ?thesis by (simp add: probe_eq)
  next
    case (Some err)
    let ?w = "emit (EvLogErrorf (Key n) err)
                     (emit (EvSend (streamId s) \<lparr>Code = PING, NodeKey = nodeKey w\<rparr>)
                        (emit (EvGetSubscribe (Key n)) w))"
    obtain es where "events (mark_offline ?w n) = events ?w @ es" "\<forall>e\<in>set es. quiet e"
      using mark_offline_quiet by blast
    with Some \<open>map_of (subs w) (Key n) = Some s\<close> show ?thesis by (simp add: probe_eq)
  qed
qed

lemma monitor_nodes_quiet:
  "\<exists>es. events (fst (monitor_nodes w ns b)) = events w @ es \<and> (\<forall>e\<in>set es. quiet e)"
proof (induction ns arbitrary: w b)
  case Nil then show ?case by simp
next
  case (Cons n ns)
  let ?w1 = "fst (probe w n)"
  obtain es1 where es1: "events ?w1 = events w @ es1" "\<forall>e\<in>set es1. quiet e"
    using probe_quiet by blast
  obtain es where es: "events (fst (monitor_nodes ?w1 ns (b \<or> snd (probe w n)))) = events ?w1 @ es"
    "\<forall>e\<in>set es. quiet e"
    using Cons.IH by blast
  have "events (fst (monitor_nodes w (n # ns) b)) = events w @ (es1 @ es)"
    using es1 es by (simp add: case_prod_beta)
  moreover have "\<forall>e\<in>set (es1 @ es). quiet e" using es1 es by auto
  ultimately show ?case by blast
qed

lemma updateMasterNodeStatus_quiet:
  "\<exists>es. events (fst (updateMasterNodeStatus w)) = events w @ EvGetNodeByKey (nodeKey w) # es
        \<and> (\<forall>e\<in>set es. quiet e)"
  by (simp add: updateMasterNodeStatus_eq split: sum.splits)

lemma monitor_quiet:
  "\<exists>es. events (fst (monitor w)) = events w @ EvGetNodeByKey (nodeKey w) # es
        \<and> (\<forall>e\<in>set es. quiet e)"
proof -
  let ?w1 = "fst (updateMasterNodeStatus w)"
  let ?w2 = "consume (emit EvGetNodeList ?w1)"
  obtain es1 where es1: "events ?w1 = events w @ EvGetNodeByKey (nodeKey w) # es1"
    "\<forall>e\<in>set es1. quiet e"
    using updateMasterNodeStatus_quiet by blast
  show ?thesis
  proof (cases "snd (updateMasterNodeStatus w)")
    case (Some e)
    with es1 show ?thesis by (simp add: monitor_eq)
  next
    case None
    show ?thesis
    proof (cases "snd (GetNodeList ?w1 (\<lambda>n. \<not> IsMaster n))")
      case (Inl e)
      have "events (fst (monitor w)) = events w @ EvGetNodeByKey (nodeKey w) #
          (es1 @ EvGetNodeList # (if e = ErrNoDocuments then [] else [EvPrintError e]))"
        using None Inl es1 by (simp add: monitor_eq)
      moreover have "\<forall>x\<in>set (es1 @ EvGetNodeList # (if e = ErrNoDocuments then [] else [EvPrintError e])). quiet x"
        using es1 by auto
      ultimately show ?thesis by blast
    next
      case (Inr ns)
      obtain es where es: "events (fst (monitor_nodes ?w2 ns False)) = events ?w2 @ es"
        "\<forall>e\<in>set es. quiet e"
        using monitor_nodes_quiet by blast
      let ?t = "if snd (monitor_nodes ?w2 ns False) then [EvPrintError ErrorNodeMonitorError] else []"
      have "events (fst (monitor w)) = events w @ EvGetNodeByKey (nodeKey w) #
          (es1 @ EvGetNodeList # es @ ?t)"
        using None Inr es1 es by (simp add: monitor_eq)
      moreover have "\<forall>x\<in>set (es1 @ EvGetNodeList # es @ ?t). quiet x"
        using es1 es by auto
      ultimately show ?thesis by blast
    qed
  qed
qed

lemma filter_quiet:
  "\<forall>e\<in>set es. quiet e \<Longrightarrow> filter is_tick es = [] \<and> filter is_sleep es = []"
  by (induction es) (auto simp: quiet_def)

text \<open>One iteration of the loop, by the result of its tick.\<close>

lemma Monitor_Suc:
  "Monitor (Suc k) svc w =
     (case snd (monitor w) of
        Some err \<Rightarrow>
          if stopOnError svc then (Stop (PrintError (fst (monitor w)) err), True)
          else Monitor k svc (Sleep (PrintError (fst (monitor w)) err) (monitorInterval svc))
      | None \<Rightarrow> Monitor k svc (Sleep (fst (monitor w)) (monitorInterval svc)))"
  by (simp add: case_prod_beta Let_def split: option.splits)

lemma Monitor_fields [simp]:
  "nodeKey (fst (Monitor k svc w)) = nodeKey w"
  by (induction k arbitrary: w) (simp_all add: Monitor_Suc del: Monitor.simps(2) split: option.splits)

lemma Monitor_run:
  "\<exists>es. events (fst (Monitor k svc w)) = events w @ es
    \<and> length (filter is_sleep es) + (if snd (Monitor k svc w) then 1 else 0)
        = length (filter is_tick es)
    \<and> set (filter is_sleep es) \<subseteq> {EvSleep (monitorInterval svc)}
    \<and> EvGo \<notin> set es \<and> EvWait \<notin> set es
    \<and> (snd (Monitor k svc w) \<longrightarrow>
          stopOnError svc \<and> \<not> serverRunning (fst (Monitor k svc w))
          \<and> (\<exists>es' e. es = es' @ [EvPrintError e, EvServerStop]))
    \<and> (\<not> snd (Monitor k svc w) \<longrightarrow> length (filter is_tick es) = k)"
proof (induction k arbitrary: w)
  case 0
  show ?case by simp
next
  case (Suc k)
  let ?d = "monitorInterval svc"
  obtain es1 where es1: "events (fst (monitor w)) = events w @ EvGetNodeByKey (nodeKey w) # es1"
    "\<forall>e\<in>set es1. quiet e"
    using monitor_quiet by blast
  note q = filter_quiet[OF es1(2)]
  have ng: "EvGo \<notin> set es1" "EvWait \<notin> set es1" using es1(2) by (auto simp: quiet_def)
  show ?case
  proof (cases "snd (monitor w)")
    case None
    let ?w' = "Sleep (fst (monitor w)) ?d"
    have M: "Monitor (Suc k) svc w = Monitor k svc ?w'" using None by (simp add: Monitor_Suc del: Monitor.simps(2))
    obtain es where es: "events (fst (Monitor k svc ?w')) = events ?w' @ es"
      "length (filter is_sleep es) + (if snd (Monitor k svc ?w') then 1 else 0) = length (filter is_tick es)"
      "set (filter is_sleep es) \<subseteq> {EvSleep ?d}" "EvGo \<notin> set es" "EvWait \<notin> set es"
      "snd (Monitor k svc ?w') \<longrightarrow> stopOnError svc \<and> \<not> serverRunning (fst (Monitor k svc ?w'))
          \<and> (\<exists>es' e. es = es' @ [EvPrintError e, EvServerStop])"
      "\<not> snd (Monitor k svc ?w') \<longrightarrow> length (filter is_tick es) = k"
      using Suc.IH[of ?w'] by blast
    let ?es = "EvGetNodeByKey (nodeKey w) # es1 @ EvSleep ?d # es"
    have e: "events (fst (Monitor (Suc k) svc w)) = events w @ ?es"
      unfolding M using es(1) es1(1) by simp
    have x: "snd (Monitor k svc ?w') \<longrightarrow> (\<exists>es' e. ?es = es' @ [EvPrintError e, EvServerStop])"
    proof
      assume "snd (Monitor k svc ?w')"
      with es(6) obtain es' e where "es = es' @ [EvPrintError e, EvServerStop]" by blast
      then have "?es = (EvGetNodeByKey (nodeKey w) # es1 @ EvSleep ?d # es') @ [EvPrintError e, EvServerStop]"
        by simp
      then show "\<exists>es' e. ?es = es' @ [EvPrintError e, EvServerStop]" by blast
    qed
    show ?thesis
      apply (rule exI[of _ ?es])
      unfolding M using e[unfolded M] es(2-7) q ng x by auto
  next
    case (Some err)
    show ?thesis
    proof (cases "stopOnError svc")
      case True
      have M: "Monitor (Suc k) svc w = (Stop (PrintError (fst (monitor w)) err), True)"
        using Some True by (simp add: Monitor_Suc del: Monitor.simps(2))
      let ?es = "EvGetNodeByKey (nodeKey w) # es1 @ [EvPrintError err, EvServerStop]"
      have e: "events (fst (Monitor (Suc k) svc w)) = events w @ ?es"
        unfolding M using es1(1) by simp
      have "?es = (EvGetNodeByKey (nodeKey w) # es1) @ [EvPrintError err, EvServerStop]" by simp
      then have x: "\<exists>es' e. ?es = es' @ [EvPrintError e, EvServerStop]" by blast
      show ?thesis
        apply (rule exI[of _ ?es])
        unfolding M using e[unfolded M] q ng x True by auto
    next
      case False
      let ?w' = "Sleep (PrintError (fst (monitor w)) err) ?d"
      have M: "Monitor (Suc k) svc w = Monitor k svc ?w'"
        using Some False by (simp add: Monitor_Suc del: Monitor.simps(2))
      obtain es where es: "events (fst (Monitor k svc ?w')) = events ?w' @ es"
        "length (filter is_sleep es) + (if snd (Monitor k svc ?w') then 1 else 0) = length (filter is_tick es)"
        "set (filter is_sleep es) \<subseteq> {EvSleep ?d}" "EvGo \<notin> set es" "EvWait \<notin> set es"
        "snd (Monitor k svc ?w') \<longrightarrow> stopOnError svc \<and> \<not> serverRunning (fst (Monitor k svc ?w'))
            \<and> (\<exists>es' e. es = es' @ [EvPrintError e, EvServerStop])"
        "\<not> snd (Monitor k svc ?w') \<longrightarrow> length (filter is_tick es) = k"
        using Suc.IH[of ?w'] by blast
      from es(6) False have ne: "\<not> snd (Monitor k svc ?w')" by blast
      let ?es = "EvGetNodeByKey (nodeKey w) # es1 @ EvPrintError err # EvSleep ?d # es"
      have e: "events (fst (Monitor (Suc k) svc w)) = events w @ ?es"
        unfolding M using es(1) es1(1) by simp
      show ?thesis
        apply (rule exI[of _ ?es])
        unfolding M using e[unfolded M] es(2-5,7) ne q ng by auto
    qed
  qed
qed

lemma server_Start_fields [simp]:
  "nodeKey (fst (server_Start w)) = nodeKey w" "nodes (fst (server_Start w)) = nodes w"
  "faults (fst (server_Start w)) = faults w"
  "events (fst (server_Start w)) = events w @ [EvServerStart]"
  "snd (server_Start w) = serverStartErr w"
  by (simp_all add: server_Start_def Let_def split: option.splits)

lemma Wait_fields [simp]:
  "events (Wait w) = events w @ [EvWait]" "nodeKey (Wait w) = nodeKey w"
  by (simp_all add: Wait_def)

lemma Register_events:
  "events (fst (Register w)) = events w @ EvGetNodeByKey (nodeKey w) #
     (case snd (GetNodeByKey w (nodeKey w)) of
        Inl err \<Rightarrow> if Error err = Error ErrNoDocuments then [EvAdd (nodeKey w)] else []
      | Inr node \<Rightarrow> [EvUpdateStatus (nodeKey w) NodeStatusOnline])"
  by (auto simp: Register_eq fresh_master_def split: sum.splits dest: GetNodeByKey_Inr)

lemma Register_events_ok:
  assumes "snd (Register w) = None"
  shows "since w (fst (Register w)) = [EvGetNodeByKey (nodeKey w), EvAdd (nodeKey w)]
       \<or> since w (fst (Register w)) = [EvGetNodeByKey (nodeKey w), EvUpdateStatus (nodeKey w) NodeStatusOnline]"
proof (cases "snd (GetNodeByKey w (nodeKey w))")
  case (Inl err)
  with assms have "Error err = Error ErrNoDocuments"
    by (auto simp: Register_eq split: if_splits)
  with Inl have "events (fst (Register w)) = events w @ [EvGetNodeByKey (nodeKey w), EvAdd (nodeKey w)]"
    by (simp add: Register_events)
  then show ?thesis using since_append by blast
next
  case (Inr node)
  then have "events (fst (Register w)) =
      events w @ [EvGetNodeByKey (nodeKey w), EvUpdateStatus (nodeKey w) NodeStatusOnline]"
    by (simp add: Register_events)
  then show ?thesis using since_append by blast
qed

lemma Register_only:
  "\<exists>es. events (fst (Register w)) = events w @ es \<and> EvGo \<notin> set es \<and> EvWait \<notin> set es"
  by (simp add: Register_events split: sum.splits)

lemma Monitor_Suc_head:
  "\<exists>es. events (fst (Monitor (Suc k) svc w)) = events w @ EvGetNodeByKey (nodeKey w) # es"
proof -
  obtain es1 where es1: "events (fst (monitor w)) = events w @ EvGetNodeByKey (nodeKey w) # es1"
    using monitor_quiet by blast
  have "\<exists>es2. events (fst (Monitor (Suc k) svc w)) = events (fst (monitor w)) @ es2"
  proof (cases "snd (monitor w)")
    case None
    obtain es where "events (fst (Monitor k svc (Sleep (fst (monitor w)) (monitorInterval svc))))
        = events (Sleep (fst (monitor w)) (monitorInterval svc)) @ es"
      using Monitor_run by blast
    with None show ?thesis by (simp add: Monitor_Suc del: Monitor.simps(2))
  next
    case (Some err)
    obtain es where "events (fst (Monitor k svc (Sleep (PrintError (fst (monitor w)) err) (monitorInterval svc))))
        = events (Sleep (PrintError (fst (monitor w)) err) (monitorInterval svc)) @ es"
      using Monitor_run by blast
    with Some show ?thesis
      by (cases "stopOnError svc") (simp_all add: Monitor_Suc del: Monitor.simps(2))
  qed
  then obtain es2 where "events (fst (Monitor (Suc k) svc w)) = events (fst (monitor w)) @ es2"
    by blast
  with es1 have "events (fst (Monitor (Suc k) svc w)) = events w @ EvGetNodeByKey (nodeKey w) # (es1 @ es2)"
    by simp
  then show ?thesis by blast
qed

lemma Start_eq:
  "Start sched svc w =
     (case serverStartErr w of
        Some err \<Rightarrow> (fst (server_Start w), Some err)
      | None \<Rightarrow>
          (case snd (Register (fst (server_Start w))) of
             Some err \<Rightarrow> (fst (Register (fst (server_Start w))), Some err)
           | None \<Rightarrow>
               (Stop (Wait (fst (Monitor sched svc (emit EvGo (fst (Register (fst (server_Start w)))))))),
                None)))"
  by (simp add: Start_def case_prod_beta Let_def split: option.splits)

lemmas loop_defs = Sleep_def Stop_def server_Stop_def server_Start_def Wait_def Start_def
  StopOnError_def svc0_def

section \<open>Construction\<close>

text \<open>
  C9, as amended. A master service constructed without options has a monitor interval
  of 60 seconds and does not stop on error. The interval is not validated:
  \<open>SetMonitorInterval\<close>, as a call or as an option of the constructor, stores any
  duration as it is, with no lower bound.
\<close>

theorem NewMasterService_defaults:
  "NewMasterService p [] c = Inr svc \<Longrightarrow>
     monitorInterval svc = 60 * Second \<and> sint (monitorInterval svc) = 60000000000
     \<and> \<not> stopOnError svc
     \<and> monitorInterval (SetMonitorInterval d svc) = d
     \<and> NewMasterService p [SetMonitorInterval d] c = Inr (SetMonitorInterval d svc)"
  by (auto simp: NewMasterService_def SetMonitorInterval_def Second_def split: option.splits)

theorem NewMasterService_defaults_witness:
  "NewMasterService ''conf'' [] dig_ok = Inr svc0
   \<and> sint (monitorInterval svc0) = 60000000000 \<and> \<not> stopOnError svc0
   \<and> NewMasterService ''conf'' [SetMonitorInterval 5] dig_ok = Inr (SetMonitorInterval 5 svc0)"
proof -
  have h: "NewMasterService ''conf'' [] dig_ok = Inr svc0"
    by (simp add: NewMasterService_def dig_ok_def svc0_def)
  from NewMasterService_defaults [OF h, of 5] h show ?thesis by blast
qed

text \<open>
  C9 as stated fails: an interval of zero, below one second, is accepted by the
  constructor and stored.
\<close>

theorem monitorInterval_below_second:
  "NewMasterService ''conf'' [SetMonitorInterval 0] dig_ok =
     Inr \<lparr>cfgPath = ''conf'', address = None, monitorInterval = 0, stopOnError = False\<rparr>
   \<and> sint (0 :: Duration) < sint Second"
  by (simp add: NewMasterService_def dig_ok_def SetMonitorInterval_def Second_def)

section \<open>Registration\<close>

text \<open>
  C2, as amended. \<open>Register\<close> looks up the master's own key. With no failure of the
  store: when the key is absent it inserts a fresh node (key and name the node key,
  master, online, enabled, active, \<open>active_ts\<close> now) and returns success; when the key
  is present it sets that node online and returns success. A failure of the lookup
  whose message is not the no-documents message, and a failure of the insert or of the
  update, are returned unchanged and leave the rows as they were. Consequently, on a
  registry with unique keys, after \<open>Register\<close> has run twice and the second run succeeded
  there is exactly one row of the master's key, and it is online. It is a master row
  exactly when the registry held no row of that key before, or held one that was a
  master row already: \<open>Register\<close> does not set \<open>is_master\<close> on a row that exists.
\<close>

theorem Register_spec:
  "(fault w = None \<and> nodeKey w \<notin> set (map Key (nodes w)) \<and> fault (consume w) = None \<longrightarrow>
      snd (Register w) = None \<and>
      nodes (fst (Register w)) = nodes w @
        [\<lparr>Id = nextId w, Key = nodeKey w, Name = nodeKey w, IsMaster = True,
          Status = NodeStatusOnline, Enabled = True, Active = True, ActiveTs = clock w\<rparr>])
   \<and> (fault w = None \<and> nodeKey w \<in> set (map Key (nodes w)) \<and> fault (consume w) = None \<longrightarrow>
      snd (Register w) = None \<and>
      nodes (fst (Register w)) =
        map (\<lambda>n. if Key n = nodeKey w
                 then n\<lparr>Status := NodeStatusOnline, Active := True, ActiveTs := clock w\<rparr>
                 else n) (nodes w))
   \<and> (fault w = Some e \<and> Error e \<noteq> Error ErrNoDocuments \<longrightarrow>
      snd (Register w) = Some e \<and> nodes (fst (Register w)) = nodes w)
   \<and> (fault w = None \<and> fault (consume w) = Some e \<longrightarrow>
      snd (Register w) = Some e \<and> nodes (fst (Register w)) = nodes w)
   \<and> (distinct (map Key (nodes w)) \<and> snd (Register (fst (Register w))) = None \<longrightarrow>
      (\<exists>m. filter (\<lambda>n. Key n = nodeKey w) (nodes (fst (Register (fst (Register w))))) = [m]
           \<and> Status m = NodeStatusOnline
           \<and> IsMaster m = (\<forall>n\<in>set (nodes w). Key n = nodeKey w \<longrightarrow> IsMaster n)))"
proof (intro conjI impI)
  assume a: "fault w = None \<and> nodeKey w \<notin> set (map Key (nodes w)) \<and> fault (consume w) = None"
  then have "snd (GetNodeByKey w (nodeKey w)) = Inl ErrNoDocuments"
    by (simp add: GetNodeByKey_snd find_None_keys split: option.splits)
  with a show "snd (Register w) = None"
    and "nodes (fst (Register w)) = nodes w @
        [\<lparr>Id = nextId w, Key = nodeKey w, Name = nodeKey w, IsMaster = True,
          Status = NodeStatusOnline, Enabled = True, Active = True, ActiveTs = clock w\<rparr>]"
    by (simp_all add: Register_eq Add_snd Add_nodes fresh_master_def)
next
  assume a: "fault w = None \<and> nodeKey w \<in> set (map Key (nodes w)) \<and> fault (consume w) = None"
  then obtain n where n: "snd (GetNodeByKey w (nodeKey w)) = Inr n"
    by (cases "find (\<lambda>n. Key n = nodeKey w) (nodes w)")
       (auto simp: GetNodeByKey_snd find_None_keys)
  then have k: "Key n = nodeKey w" using GetNodeByKey_Inr by blast
  from a n k show "snd (Register w) = None"
    by (simp add: Register_eq UpdateStatus_snd)
  with a n k show "nodes (fst (Register w)) =
        map (\<lambda>n. if Key n = nodeKey w
                 then n\<lparr>Status := NodeStatusOnline, Active := True, ActiveTs := clock w\<rparr>
                 else n) (nodes w)"
    by (simp add: Register_eq UpdateStatus_nodes set_status_def)
next
  assume a: "fault w = Some e \<and> Error e \<noteq> Error ErrNoDocuments"
  then have "snd (GetNodeByKey w (nodeKey w)) = Inl e" by (simp add: GetNodeByKey_snd)
  with a show "snd (Register w) = Some e" and "nodes (fst (Register w)) = nodes w"
    by (simp_all add: Register_eq)
next
  assume a: "fault w = None \<and> fault (consume w) = Some e"
  show "snd (Register w) = Some e"
    using a by (auto simp: Register_eq Add_snd UpdateStatus_snd split: sum.splits dest: GetNodeByKey_Inl)
  then show "nodes (fst (Register w)) = nodes w"
    by (auto simp: Register_eq Add_nodes UpdateStatus_nodes split: sum.splits if_splits)
next
  let ?w1 = "fst (Register w)"
  let ?w2 = "fst (Register ?w1)"
  assume a: "distinct (map Key (nodes w)) \<and> snd (Register ?w1) = None"
  then have d: "distinct (map Key (nodes ?w2))" by (simp add: Register_distinct)
  from a obtain m where m: "m \<in> set (nodes ?w2)" "Key m = nodeKey w"
    and on: "\<forall>n\<in>set (nodes ?w2). Key n = nodeKey w \<longrightarrow> Status n = NodeStatusOnline"
    using Register_ok_online[of ?w1] by auto
  from d m have f: "filter (\<lambda>n. Key n = nodeKey w) (nodes ?w2) = [m]"
    using filter_key_single[of "nodes ?w2" m] by simp
  have "IsMaster m = master_flag ?w2"
    using master_flag_row[OF d m(1)] m(2) by simp
  also have "\<dots> = master_flag w" by (simp add: Register_master_flag)
  finally have im: "IsMaster m = (\<forall>n\<in>set (nodes w). Key n = nodeKey w \<longrightarrow> IsMaster n)"
    by (simp add: master_flag_def)
  from f m on im
  show "\<exists>m. filter (\<lambda>n. Key n = nodeKey w) (nodes ?w2) = [m]
           \<and> Status m = NodeStatusOnline
           \<and> IsMaster m = (\<forall>n\<in>set (nodes w). Key n = nodeKey w \<longrightarrow> IsMaster n)" by blast
qed

theorem Register_spec_witness:
  "snd (Register world0) = None
   \<and> nodes (fst (Register world0)) =
       [\<lparr>Id = 1, Key = ''m1'', Name = ''m1'', IsMaster = True,
         Status = NodeStatusOnline, Enabled = True, Active = True, ActiveTs = 1000\<rparr>]
   \<and> snd (Register (fst (Register world0))) = None
   \<and> (\<exists>m. filter (\<lambda>n. Key n = ''m1'') (nodes (fst (Register (fst (Register world0))))) = [m]
           \<and> IsMaster m \<and> Status m = NodeStatusOnline)
   \<and> snd (Register (world0\<lparr>faults := [Some registry_unavailable]\<rparr>)) = Some registry_unavailable
   \<and> snd (Register (world0\<lparr>faults := [None, Some registry_unavailable]\<rparr>)) =
       Some registry_unavailable"
proof -
  let ?e = registry_unavailable
  let ?wa = "world0\<lparr>faults := [Some ?e]\<rparr>"
  let ?wb = "world0\<lparr>faults := [None, Some ?e]\<rparr>"
  let ?w1 = "fst (Register world0)"
  have h1: "fault world0 = None \<and> nodeKey world0 \<notin> set (map Key (nodes world0))
      \<and> fault (consume world0) = None"
    by (simp add: world0_def fault_def consume_def)
  have h2: "fault ?w1 = None \<and> nodeKey ?w1 \<in> set (map Key (nodes ?w1))
      \<and> fault (consume ?w1) = None"
    by (simp add: world0_def eval_defs)
  have h3: "fault ?wa = Some ?e \<and> Error ?e \<noteq> Error ErrNoDocuments"
    by (simp add: world0_def fault_def registry_unavailable_def)
  have h4: "fault ?wb = None \<and> fault (consume ?wb) = Some ?e"
    by (simp add: world0_def fault_def consume_def)
  have h5: "distinct (map Key (nodes world0))"
    by (simp add: world0_def)
  have c1: "snd (Register world0) = None \<and> nodes ?w1 = nodes world0 @
        [\<lparr>Id = nextId world0, Key = nodeKey world0, Name = nodeKey world0, IsMaster = True,
          Status = NodeStatusOnline, Enabled = True, Active = True, ActiveTs = clock world0\<rparr>]"
    using Register_spec [of world0 ?e] h1 by blast
  have c2: "snd (Register ?w1) = None"
    using Register_spec [of ?w1 ?e] h2 by blast
  have c3: "snd (Register ?wa) = Some ?e"
    using Register_spec [of ?wa ?e] h3 by blast
  have c4: "snd (Register ?wb) = Some ?e"
    using Register_spec [of ?wb ?e] h4 by blast
  have "\<exists>m. filter (\<lambda>n. Key n = nodeKey world0) (nodes (fst (Register ?w1))) = [m]
           \<and> Status m = NodeStatusOnline
           \<and> IsMaster m = (\<forall>n\<in>set (nodes world0). Key n = nodeKey world0 \<longrightarrow> IsMaster n)"
    using Register_spec [of world0 ?e] h5 c2 by blast
  then have c5: "\<exists>m. filter (\<lambda>n. Key n = nodeKey world0) (nodes (fst (Register ?w1))) = [m]
           \<and> IsMaster m \<and> Status m = NodeStatusOnline"
    by (auto simp: world0_def)
  have k: "nodeKey world0 = ''m1''" "nextId world0 = 1" "clock world0 = 1000" "nodes world0 = []"
    by (simp_all add: world0_def)
  from c1 c2 c3 c4 c5 show ?thesis unfolding k by simp
qed

text \<open>
  C2 as stated fails: on a registry whose row of the master's key is not a master row,
  \<open>Register\<close> succeeds twice and leaves that one row, online and still not a master
  row; there is no master row.
\<close>

theorem Register_keeps_role:
  "map Key (nodes world_role) = [''m1''] \<and> map IsMaster (nodes world_role) = [False]
   \<and> snd (Register world_role) = None
   \<and> snd (Register (fst (Register world_role))) = None
   \<and> map Key (nodes (fst (Register (fst (Register world_role))))) = [''m1'']
   \<and> map Status (nodes (fst (Register (fst (Register world_role))))) = [NodeStatusOnline]
   \<and> map IsMaster (nodes (fst (Register (fst (Register world_role))))) = [False]"
  by (simp add: world_role_def world0_def worker_def eval_defs)

text \<open>
  C10. \<open>Register\<close> decides that the master is absent on the message of the lookup's
  error: for every error of the lookup whose message equals the message of the
  driver's no-documents sentinel, whatever the error is, \<open>Register\<close> does not return
  it but goes on with the insert of a fresh master node, and its result is the
  insert's.
\<close>

theorem Register_absent_by_message:
  assumes l: "snd (GetNodeByKey w (nodeKey w)) = Inl e"
    and msg: "Error e = Error ErrNoDocuments"
  shows "Register w = Add (fst (GetNodeByKey w (nodeKey w))) (fresh_master (nodeKey w) (clock w))
    \<and> since w (fst (Register w)) = [EvGetNodeByKey (nodeKey w), EvAdd (nodeKey w)]
    \<and> (nodeKey w \<notin> set (map Key (nodes w)) \<and> fault (consume w) = None \<longrightarrow>
         snd (Register w) = None
         \<and> nodes (fst (Register w)) = nodes w @ [(fresh_master (nodeKey w) (clock w))\<lparr>Id := nextId w\<rparr>])"
proof -
  let ?w1 = "consume (emit (EvGetNodeByKey (nodeKey w)) w)"
  let ?n = "fresh_master (nodeKey w) (clock w)"
  have R: "Register w = Add ?w1 ?n" using l msg by (simp add: Register_eq)
  have k: "Key ?n = nodeKey w" by (simp add: fresh_master_def)
  have "events (fst (Register w)) = events w @ [EvGetNodeByKey (nodeKey w), EvAdd (nodeKey w)]"
    unfolding R by (simp add: k)
  then have s: "since w (fst (Register w)) = [EvGetNodeByKey (nodeKey w), EvAdd (nodeKey w)]"
    by (rule since_append)
  have c: "nodeKey w \<notin> set (map Key (nodes w)) \<and> fault (consume w) = None \<longrightarrow>
         snd (Register w) = None
         \<and> nodes (fst (Register w)) = nodes w @ [?n\<lparr>Id := nextId w\<rparr>]"
    unfolding R by (simp add: Add_snd Add_nodes k)
  from R s c show ?thesis by simp
qed

theorem Register_absent_by_message_witness:
  "lookalike \<noteq> ErrNoDocuments
   \<and> snd (GetNodeByKey world0_lookalike ''m1'') = Inl lookalike
   \<and> Error lookalike = Error ErrNoDocuments
   \<and> snd (Register world0_lookalike) = None
   \<and> since world0_lookalike (fst (Register world0_lookalike)) = [EvGetNodeByKey ''m1'', EvAdd ''m1'']
   \<and> map Key (nodes (fst (Register world0_lookalike))) = [''m1'']"
proof -
  have k: "nodeKey world0_lookalike = ''m1''" "nodes world0_lookalike = []"
    by (simp_all add: world0_lookalike_def world0_def)
  have l: "snd (GetNodeByKey world0_lookalike (nodeKey world0_lookalike)) = Inl lookalike"
    by (simp add: world0_lookalike_def world0_def eval_defs)
  have msg: "Error lookalike = Error ErrNoDocuments" by (simp add: lookalike_def)
  have d: "lookalike \<noteq> ErrNoDocuments" by (simp add: lookalike_def)
  have h: "nodeKey world0_lookalike \<notin> set (map Key (nodes world0_lookalike))
      \<and> fault (consume world0_lookalike) = None"
    by (simp add: world0_lookalike_def world0_def fault_def consume_def)
  from Register_absent_by_message [OF l msg] h
  have "snd (Register world0_lookalike) = None"
    and "since world0_lookalike (fst (Register world0_lookalike)) =
        [EvGetNodeByKey (nodeKey world0_lookalike), EvAdd (nodeKey world0_lookalike)]"
    and "nodes (fst (Register world0_lookalike)) = nodes world0_lookalike @
        [(fresh_master (nodeKey world0_lookalike) (clock world0_lookalike))\<lparr>Id := nextId world0_lookalike\<rparr>]"
    by blast+
  with l msg d show ?thesis unfolding k by (simp add: fresh_master_def)
qed

section \<open>The monitor tick\<close>

text \<open>
  C1, as amended. In every tick that reaches the loop over the workers, for every node
  \<open>n\<close> that the registry returned: if the subscription lookup for its key fails or the
  send on its stream fails, the tick issues the update that sets \<open>n\<close> offline, the tick
  is flagged and returns the monitor error, and every returned node is probed, in
  order. The status of \<open>n\<close> is offline after the tick when the store does not fail
  during the loop; a failure of the update itself is only printed.
\<close>

theorem monitor_unreachable_worker:
  assumes u: "updateMasterNodeStatus w = (w1, None)"
    and l: "GetNodeList w1 (\<lambda>n. \<not> IsMaster n) = (w2, Inr ns)"
    and n: "n \<in> set ns"
    and un: "unreachable w (Key n)"
  shows "snd (monitor w) = Some ErrorNodeMonitorError
    \<and> subscribe_keys (since w (fst (monitor w))) = map Key ns
    \<and> EvUpdateStatus (Key n) NodeStatusOffline \<in> set (since w (fst (monitor w)))
    \<and> (set (faults w2) \<subseteq> {None} \<longrightarrow>
         (\<forall>m\<in>set (nodes (fst (monitor w))). Key m = Key n \<longrightarrow> Status m = NodeStatusOffline))"
proof -
  let ?w3 = "fst (monitor_nodes w2 ns False)"
  note m = monitor_loop[OF u l]
  have un2: "\<And>k. unreachable w2 k = unreachable w k"
    by (rule unreachable_cong) (rule m(2))
  have flag: "snd (monitor_nodes w2 ns False)"
    using n un un2 by (auto simp: monitor_nodes_snd)
  then have mw: "monitor w = TraceError ?w3 ErrorNodeMonitorError" using m(1) by simp
  obtain es0 where es0: "events w2 = events w @ es0" "subscribe_keys es0 = []"
    using m(3) by blast
  obtain es where es: "events ?w3 = events w2 @ es" "subscribe_keys es = map Key ns"
    "\<forall>n\<in>set ns. unreachable w2 (Key n) \<longrightarrow> EvUpdateStatus (Key n) NodeStatusOffline \<in> set es"
    using monitor_nodes_events by blast
  have ev: "events (fst (monitor w)) = events w @ (es0 @ es @ [EvPrintError ErrorNodeMonitorError])"
    using mw es0 es by simp
  have s: "since w (fst (monitor w)) = es0 @ es @ [EvPrintError ErrorNodeMonitorError]"
    using ev by (rule since_append)
  have a: "snd (monitor w) = Some ErrorNodeMonitorError" using mw by simp
  have b: "subscribe_keys (since w (fst (monitor w))) = map Key ns"
    unfolding s using es0 es by simp
  have c: "EvUpdateStatus (Key n) NodeStatusOffline \<in> set (since w (fst (monitor w)))"
    unfolding s using es(3) n un un2 by auto
  have d: "set (faults w2) \<subseteq> {None} \<longrightarrow>
         (\<forall>m\<in>set (nodes (fst (monitor w))). Key m = Key n \<longrightarrow> Status m = NodeStatusOffline)"
  proof
    assume f: "set (faults w2) \<subseteq> {None}"
    have "\<forall>m\<in>set (nodes ?w3).
       Key m \<in> {} \<union> {Key n |n. n \<in> set ns \<and> unreachable w2 (Key n)} \<longrightarrow> Status m = NodeStatusOffline"
      by (rule monitor_nodes_offline[OF f]) simp
    then show "\<forall>m\<in>set (nodes (fst (monitor w))). Key m = Key n \<longrightarrow> Status m = NodeStatusOffline"
      using n un un2 mw by auto
  qed
  from a b c d show ?thesis by blast
qed

theorem monitor_unreachable_worker_witness:
  "unreachable cluster ''w1''
   \<and> snd (monitor cluster) = Some ErrorNodeMonitorError
   \<and> subscribe_keys (since cluster (fst (monitor cluster))) = [''w1'', ''w2'']
   \<and> EvUpdateStatus ''w1'' NodeStatusOffline \<in> set (since cluster (fst (monitor cluster)))
   \<and> Status ` {m \<in> set (nodes (fst (monitor cluster))). Key m = ''w1''} \<subseteq> {NodeStatusOffline}"
proof -
  let ?w1 = "fst (updateMasterNodeStatus cluster)"
  let ?w2 = "fst (GetNodeList ?w1 (\<lambda>n. \<not> IsMaster n))"
  let ?ns = "[worker ''w1'' 2, worker ''w2'' 3]"
  have "snd (updateMasterNodeStatus cluster) = None"
    by (simp add: tick_defs eval_defs ex_defs)
  then have u: "updateMasterNodeStatus cluster = (?w1, None)"
    by (simp add: prod_eq_iff)
  have "snd (GetNodeList ?w1 (\<lambda>n. \<not> IsMaster n)) = Inr ?ns"
    by (simp add: tick_defs eval_defs ex_defs)
  then have l: "GetNodeList ?w1 (\<lambda>n. \<not> IsMaster n) = (?w2, Inr ?ns)"
    by (simp add: prod_eq_iff del: GetNodeList_fst)
  have n: "worker ''w1'' 2 \<in> set ?ns" by simp
  have k: "Key (worker ''w1'' 2) = ''w1''" "map Key ?ns = [''w1'', ''w2'']"
    by (simp_all add: worker_def)
  have un: "unreachable cluster (Key (worker ''w1'' 2))"
    by (simp add: unreachable_def ex_defs)
  have f: "set (faults ?w2) \<subseteq> {None}"
    by (simp add: tick_defs eval_defs ex_defs)
  from monitor_unreachable_worker [OF u l n un] f un show ?thesis
    unfolding k by auto
qed

text \<open>
  C1 as stated fails: \<open>w1\<close> has no subscription, the update that sets it offline
  fails, the error is printed, and \<open>w1\<close> is still online after the tick.
\<close>

theorem worker_stays_online:
  "unreachable cluster_update_fails ''w1''
   \<and> nodes (fst (monitor cluster_update_fails)) =
       [master_node\<lparr>ActiveTs := 2000\<rparr>, worker ''w1'' 2, worker ''w2'' 3]
   \<and> Status (worker ''w1'' 2) = NodeStatusOnline"
  by (simp add: cluster_update_fails_def tick_defs eval_defs ex_defs)

text \<open>
  C3, as amended. When the refresh of the master's own row fails, the tick returns that
  error at once: the rows are as before, the workers are neither enumerated nor
  probed. In the loop the error is printed; under \<open>stop_on_error\<close> the service stops
  and the loop returns, otherwise the loop sleeps and goes on with the next tick.
\<close>

theorem monitor_refresh_failure:
  assumes u: "updateMasterNodeStatus w = (w1, Some e)"
  shows "monitor w = (w1, Some e) \<and> nodes w1 = nodes w
    \<and> EvGetNodeList \<notin> set (since w w1) \<and> subscribe_keys (since w w1) = []
    \<and> Monitor (Suc k) svc w =
        (if stopOnError svc then (Stop (PrintError w1 e), True)
         else Monitor k svc (Sleep (PrintError w1 e) (monitorInterval svc)))"
proof -
  from u have u': "fst (updateMasterNodeStatus w) = w1" "snd (updateMasterNodeStatus w) = Some e"
    by simp_all
  have m: "monitor w = (w1, Some e)" by (simp add: monitor_eq u')
  have n: "nodes w1 = nodes w" using updateMasterNodeStatus_failed[of w e] u' by simp
  obtain es where es: "events w1 = events w @ EvGetNodeByKey (nodeKey w) # es"
    "subscribe_keys es = []" "EvGetNodeList \<notin> set es"
    using updateMasterNodeStatus_events[of w] u' by auto
  have s: "since w w1 = EvGetNodeByKey (nodeKey w) # es" using es(1) by (rule since_append)
  from m n es show ?thesis unfolding s by (simp add: Let_def)
qed

theorem monitor_refresh_failure_witness:
  "snd (updateMasterNodeStatus cluster_refresh_fails) = Some registry_unavailable
   \<and> snd (monitor cluster_refresh_fails) = Some registry_unavailable
   \<and> nodes (fst (monitor cluster_refresh_fails)) = nodes cluster_refresh_fails"
proof -
  let ?w1 = "fst (updateMasterNodeStatus cluster_refresh_fails)"
  have su: "snd (updateMasterNodeStatus cluster_refresh_fails) = Some registry_unavailable"
    by (simp add: cluster_refresh_fails_def tick_defs eval_defs ex_defs)
  then have u: "updateMasterNodeStatus cluster_refresh_fails = (?w1, Some registry_unavailable)"
    by (simp add: prod_eq_iff)
  from monitor_refresh_failure [OF u, of 0 svc0]
  have "monitor cluster_refresh_fails = (?w1, Some registry_unavailable)"
    and "nodes ?w1 = nodes cluster_refresh_fails" by blast+
  with su show ?thesis by simp
qed

text \<open>
  C3 as stated fails: without \<open>stop_on_error\<close>, a tick whose refresh fails records the
  lookup, the print and the sleep only; the unreachable worker \<open>w1\<close> is not probed and
  stays online.
\<close>

theorem refresh_failure_ends_tick:
  "unreachable cluster_refresh_fails ''w1''
   \<and> \<not> stopOnError svc0
   \<and> events (fst (Monitor 1 svc0 cluster_refresh_fails)) =
       [EvGetNodeByKey ''m1'', EvPrintError registry_unavailable, EvSleep (60 * Second)]
   \<and> nodes (fst (Monitor 1 svc0 cluster_refresh_fails)) =
       [master_node, worker ''w1'' 2, worker ''w2'' 3]
   \<and> Status (worker ''w1'' 2) = NodeStatusOnline"
  by (simp add: cluster_refresh_fails_def svc0_def Sleep_def tick_defs eval_defs ex_defs)

text \<open>
  C4. A tick that reaches the loop over the workers returns the monitor error exactly
  when the error flag is set, which is exactly when at least one returned node could
  not be reached, and returns success otherwise; an empty enumeration, as an empty
  list or as the no-documents error, gives success. A tick that ends before the loop
  returns the store's error itself.
\<close>

theorem monitor_result:
  "(updateMasterNodeStatus w = (w1, None) \<and> GetNodeList w1 (\<lambda>n. \<not> IsMaster n) = (w2, Inr ns) \<longrightarrow>
      snd (monitor w) = (if snd (monitor_nodes w2 ns False) then Some ErrorNodeMonitorError else None)
      \<and> snd (monitor_nodes w2 ns False) = (\<exists>n\<in>set ns. unreachable w (Key n))
      \<and> (ns = [] \<longrightarrow> snd (monitor w) = None))
   \<and> (updateMasterNodeStatus w = (w1, None) \<and> GetNodeList w1 (\<lambda>n. \<not> IsMaster n) = (w2, Inl e) \<longrightarrow>
      snd (monitor w) = (if e = ErrNoDocuments then None else Some e))
   \<and> (updateMasterNodeStatus w = (w1, Some e) \<longrightarrow> snd (monitor w) = Some e)"
proof (intro conjI impI)
  assume a: "updateMasterNodeStatus w = (w1, None) \<and> GetNodeList w1 (\<lambda>n. \<not> IsMaster n) = (w2, Inr ns)"
  then have u: "updateMasterNodeStatus w = (w1, None)"
    and l: "GetNodeList w1 (\<lambda>n. \<not> IsMaster n) = (w2, Inr ns)" by simp_all
  note m = monitor_loop[OF u l]
  have un2: "\<And>k. unreachable w2 k = unreachable w k"
    by (rule unreachable_cong) (rule m(2))
  show r: "snd (monitor w) = (if snd (monitor_nodes w2 ns False) then Some ErrorNodeMonitorError else None)"
    using m(1) by simp
  show "snd (monitor_nodes w2 ns False) = (\<exists>n\<in>set ns. unreachable w (Key n))"
    by (simp add: monitor_nodes_snd un2)
  assume "ns = []"
  with r show "snd (monitor w) = None" by simp
next
  assume a: "updateMasterNodeStatus w = (w1, None) \<and> GetNodeList w1 (\<lambda>n. \<not> IsMaster n) = (w2, Inl e)"
  then have "fst (updateMasterNodeStatus w) = w1" "snd (updateMasterNodeStatus w) = None"
    "snd (GetNodeList w1 (\<lambda>n. \<not> IsMaster n)) = Inl e" by simp_all
  then show "snd (monitor w) = (if e = ErrNoDocuments then None else Some e)"
    by (simp add: monitor_eq)
next
  assume "updateMasterNodeStatus w = (w1, Some e)"
  then have "snd (updateMasterNodeStatus w) = Some e" by simp
  then show "snd (monitor w) = Some e" by (simp add: monitor_eq)
qed

theorem monitor_result_witness:
  "unreachable cluster ''w1''
   \<and> snd (monitor cluster) = Some ErrorNodeMonitorError
   \<and> snd (monitor cluster_no_workers) = None
   \<and> snd (monitor cluster_no_documents) = None
   \<and> snd (monitor cluster_refresh_fails) = Some registry_unavailable"
proof -
  let ?f = "\<lambda>n. \<not> IsMaster n"
  let ?e = registry_unavailable
  let ?ns = "[worker ''w1'' 2, worker ''w2'' 3]"
  let ?u = "\<lambda>w. fst (updateMasterNodeStatus w)"
  let ?l = "\<lambda>w. fst (GetNodeList (?u w) ?f)"
  have "snd (updateMasterNodeStatus cluster) = None"
    by (simp add: tick_defs eval_defs ex_defs)
  then have u1: "updateMasterNodeStatus cluster = (?u cluster, None)"
    by (simp add: prod_eq_iff)
  have "snd (GetNodeList (?u cluster) ?f) = Inr ?ns"
    by (simp add: tick_defs eval_defs ex_defs)
  then have l1: "GetNodeList (?u cluster) ?f = (?l cluster, Inr ?ns)"
    by (simp add: prod_eq_iff del: GetNodeList_fst)
  have un: "unreachable cluster (Key (worker ''w1'' 2))" "Key (worker ''w1'' 2) = ''w1''"
    by (simp_all add: unreachable_def ex_defs)
  then have ex: "\<exists>n\<in>set ?ns. unreachable cluster (Key n)" by simp
  have c1: "snd (monitor cluster) = Some ErrorNodeMonitorError"
    using monitor_result [of cluster "?u cluster" "?l cluster" ?ns ?e] u1 l1 ex by metis
  have "snd (updateMasterNodeStatus cluster_no_workers) = None"
    by (simp add: cluster_no_workers_def tick_defs eval_defs ex_defs)
  then have u2: "updateMasterNodeStatus cluster_no_workers = (?u cluster_no_workers, None)"
    by (simp add: prod_eq_iff)
  have "snd (GetNodeList (?u cluster_no_workers) ?f) = Inr []"
    by (simp add: cluster_no_workers_def tick_defs eval_defs ex_defs)
  then have l2: "GetNodeList (?u cluster_no_workers) ?f = (?l cluster_no_workers, Inr [])"
    by (simp add: prod_eq_iff del: GetNodeList_fst)
  have c2: "snd (monitor cluster_no_workers) = None"
    using monitor_result [of cluster_no_workers "?u cluster_no_workers" "?l cluster_no_workers" "[]" ?e]
      u2 l2 by blast
  have "snd (updateMasterNodeStatus cluster_no_documents) = None"
    by (simp add: cluster_no_documents_def tick_defs eval_defs ex_defs)
  then have u3: "updateMasterNodeStatus cluster_no_documents = (?u cluster_no_documents, None)"
    by (simp add: prod_eq_iff)
  have "snd (GetNodeList (?u cluster_no_documents) ?f) = Inl ErrNoDocuments"
    by (simp add: cluster_no_documents_def tick_defs eval_defs ex_defs)
  then have l3: "GetNodeList (?u cluster_no_documents) ?f = (?l cluster_no_documents, Inl ErrNoDocuments)"
    by (simp add: prod_eq_iff del: GetNodeList_fst)
  have c3: "snd (monitor cluster_no_documents) = None"
    using monitor_result [of cluster_no_documents "?u cluster_no_documents"
        "?l cluster_no_documents" "[]" ErrNoDocuments] u3 l3 by metis
  have "snd (updateMasterNodeStatus cluster_refresh_fails) = Some ?e"
    by (simp add: cluster_refresh_fails_def tick_defs eval_defs ex_defs)
  then have u4: "updateMasterNodeStatus cluster_refresh_fails = (?u cluster_refresh_fails, Some ?e)"
    by (simp add: prod_eq_iff)
  have c4: "snd (monitor cluster_refresh_fails) = Some ?e"
    using monitor_result [of cluster_refresh_fails "?u cluster_refresh_fails" "?l cluster" "[]" ?e]
      u4 by blast
  from un c1 c2 c3 c4 show ?thesis by simp
qed

text \<open>
  C5. A probe whose subscription lookup and send succeed makes no call on the
  registry: it records the lookup and the send only, leaves every row and the error
  flag as they were; over a whole tick, the rows of such a key other than the master's
  are unchanged.
\<close>

theorem heartbeat_success_keeps_record:
  assumes "\<not> unreachable w (Key n)"
  shows "nodes (fst (probe w n)) = nodes w \<and> faults (fst (probe w n)) = faults w
    \<and> \<not> snd (probe w n)
    \<and> (\<exists>s. map_of (subs w) (Key n) = Some s \<and> sendErr s = None
          \<and> since w (fst (probe w n)) =
              [EvGetSubscribe (Key n), EvSend (streamId s) \<lparr>Code = PING, NodeKey = nodeKey w\<rparr>])
    \<and> (Key n \<noteq> nodeKey w \<longrightarrow>
         filter (\<lambda>m. Key m = Key n) (nodes (fst (monitor w))) = filter (\<lambda>m. Key m = Key n) (nodes w))"
proof -
  from assms obtain s where s: "map_of (subs w) (Key n) = Some s" "sendErr s = None"
    by (auto simp: unreachable_def split: option.splits)
  then have "events (fst (probe w n)) = events w @
     [EvGetSubscribe (Key n), EvSend (streamId s) \<lparr>Code = PING, NodeKey = nodeKey w\<rparr>]"
    by (simp add: probe_eq)
  then have "since w (fst (probe w n)) =
     [EvGetSubscribe (Key n), EvSend (streamId s) \<lparr>Code = PING, NodeKey = nodeKey w\<rparr>]"
    by (rule since_append)
  with s assms show ?thesis
    by (simp add: probe_nodes_reachable probe_faults probe_snd monitor_others)
qed

theorem heartbeat_success_keeps_record_witness:
  "\<not> unreachable cluster ''w2'' \<and> ''w2'' \<noteq> nodeKey cluster
   \<and> nodes (fst (probe cluster (worker ''w2'' 3))) = nodes cluster
   \<and> filter (\<lambda>m. Key m = ''w2'') (nodes (fst (monitor cluster))) =
       filter (\<lambda>m. Key m = ''w2'') (nodes cluster)"
proof -
  have k: "Key (worker ''w2'' 3) = ''w2''" by (simp add: worker_def)
  have h: "\<not> unreachable cluster (Key (worker ''w2'' 3))"
    by (simp add: unreachable_def ex_defs)
  have m: "Key (worker ''w2'' 3) \<noteq> nodeKey cluster" by (simp add: ex_defs)
  from heartbeat_success_keeps_record [OF h] h m show ?thesis unfolding k by blast
qed

section \<open>The loop and the lifecycle\<close>

text \<open>
  C6. One iteration of the loop: when the tick returns an error and \<open>stop_on_error\<close> is
  set, the loop stops the service and returns, without a sleep and without another
  tick; in every other case, whatever the tick returned, it sleeps \<open>monitor_interval\<close>
  and goes on. Over a whole run: every sleep is of \<open>monitor_interval\<close>; a loop still
  running has slept once for each of its ticks; a loop that returned has slept once for
  each tick but the last, runs under \<open>stop_on_error\<close>, and the last events are the print
  of the tick's error and the stop of the server.
\<close>

theorem Monitor_sleeps:
  "(snd (monitor w) = Some e \<and> stopOnError svc \<longrightarrow>
      Monitor (Suc k) svc w = (Stop (PrintError (fst (monitor w)) e), True))
   \<and> (snd (monitor w) = Some e \<and> \<not> stopOnError svc \<longrightarrow>
      Monitor (Suc k) svc w = Monitor k svc (Sleep (PrintError (fst (monitor w)) e) (monitorInterval svc)))
   \<and> (snd (monitor w) = None \<longrightarrow>
      Monitor (Suc k) svc w = Monitor k svc (Sleep (fst (monitor w)) (monitorInterval svc)))
   \<and> (Monitor k svc w = (w', exited) \<longrightarrow>
      length (filter is_sleep (since w w')) + (if exited then 1 else 0)
        = length (filter is_tick (since w w'))
      \<and> set (filter is_sleep (since w w')) \<subseteq> {EvSleep (monitorInterval svc)}
      \<and> (exited \<longrightarrow> stopOnError svc \<and> \<not> serverRunning w'
            \<and> (\<exists>es e'. since w w' = es @ [EvPrintError e', EvServerStop]))
      \<and> (\<not> exited \<longrightarrow> length (filter is_tick (since w w')) = k))"
proof -
  have p1: "snd (monitor w) = Some e \<and> stopOnError svc \<longrightarrow>
      Monitor (Suc k) svc w = (Stop (PrintError (fst (monitor w)) e), True)"
    by (simp add: Monitor_Suc del: Monitor.simps(2))
  have p2: "snd (monitor w) = Some e \<and> \<not> stopOnError svc \<longrightarrow>
      Monitor (Suc k) svc w = Monitor k svc (Sleep (PrintError (fst (monitor w)) e) (monitorInterval svc))"
    by (simp add: Monitor_Suc del: Monitor.simps(2))
  have p3: "snd (monitor w) = None \<longrightarrow>
      Monitor (Suc k) svc w = Monitor k svc (Sleep (fst (monitor w)) (monitorInterval svc))"
    by (simp add: Monitor_Suc del: Monitor.simps(2))
  have p4: "Monitor k svc w = (w', exited) \<longrightarrow>
      length (filter is_sleep (since w w')) + (if exited then 1 else 0)
        = length (filter is_tick (since w w'))
      \<and> set (filter is_sleep (since w w')) \<subseteq> {EvSleep (monitorInterval svc)}
      \<and> (exited \<longrightarrow> stopOnError svc \<and> \<not> serverRunning w'
            \<and> (\<exists>es e'. since w w' = es @ [EvPrintError e', EvServerStop]))
      \<and> (\<not> exited \<longrightarrow> length (filter is_tick (since w w')) = k)"
  proof
    assume M: "Monitor k svc w = (w', exited)"
    obtain es where es: "events (fst (Monitor k svc w)) = events w @ es"
      "length (filter is_sleep es) + (if snd (Monitor k svc w) then 1 else 0) = length (filter is_tick es)"
      "set (filter is_sleep es) \<subseteq> {EvSleep (monitorInterval svc)}"
      "snd (Monitor k svc w) \<longrightarrow> stopOnError svc \<and> \<not> serverRunning (fst (Monitor k svc w))
          \<and> (\<exists>es' e. es = es' @ [EvPrintError e, EvServerStop])"
      "\<not> snd (Monitor k svc w) \<longrightarrow> length (filter is_tick es) = k"
      using Monitor_run[of k svc w] by blast
    have s: "since w w' = es" using es(1) M by (simp add: since_def)
    from es(2-5) M show "length (filter is_sleep (since w w')) + (if exited then 1 else 0)
        = length (filter is_tick (since w w'))
      \<and> set (filter is_sleep (since w w')) \<subseteq> {EvSleep (monitorInterval svc)}
      \<and> (exited \<longrightarrow> stopOnError svc \<and> \<not> serverRunning w'
            \<and> (\<exists>es e'. since w w' = es @ [EvPrintError e', EvServerStop]))
      \<and> (\<not> exited \<longrightarrow> length (filter is_tick (since w w')) = k)"
      unfolding s by simp
  qed
  from p1 p2 p3 p4 show ?thesis by blast
qed

theorem Monitor_sleeps_witness:
  "snd (monitor cluster) = Some ErrorNodeMonitorError
   \<and> \<not> stopOnError svc0 \<and> stopOnError (StopOnError svc0)
   \<and> \<not> snd (Monitor 2 svc0 cluster)
   \<and> length (filter is_tick (since cluster (fst (Monitor 2 svc0 cluster)))) = 2
   \<and> length (filter is_sleep (since cluster (fst (Monitor 2 svc0 cluster)))) = 2
   \<and> Monitor 2 (StopOnError svc0) cluster =
       (Stop (PrintError (fst (monitor cluster)) ErrorNodeMonitorError), True)"
proof -
  let ?w' = "fst (Monitor 2 svc0 cluster)"
  have t: "snd (monitor cluster) = Some ErrorNodeMonitorError"
    by (simp add: tick_defs eval_defs ex_defs)
  have s0: "\<not> stopOnError svc0" "stopOnError (StopOnError svc0)"
    by (simp_all add: svc0_def StopOnError_def)
  have "\<not> snd (Monitor (Suc (Suc 0)) svc0 cluster)"
    by (simp add: loop_defs tick_defs eval_defs ex_defs)
  then have ne: "\<not> snd (Monitor 2 svc0 cluster)" by (simp add: numeral_2_eq_2)
  then have M: "Monitor 2 svc0 cluster = (?w', False)" by (simp add: prod_eq_iff)
  have a: "length (filter is_sleep (since cluster ?w')) + (if False then 1 else 0)
        = length (filter is_tick (since cluster ?w'))
      \<and> length (filter is_tick (since cluster ?w')) = 2"
    using Monitor_sleeps [where w = cluster and svc = svc0 and k = 2 and w' = ?w' and exited = False] M
    by blast
  have b: "Monitor (Suc 1) (StopOnError svc0) cluster =
       (Stop (PrintError (fst (monitor cluster)) ErrorNodeMonitorError), True)"
    using Monitor_sleeps [where w = cluster and svc = "StopOnError svc0" and k = 1
        and e = ErrorNodeMonitorError] t s0(2)
    by blast
  from t s0 ne a b show ?thesis by (simp add: numeral_2_eq_2)
qed

text \<open>
  C7. A \<open>Start\<close> that returns has, in this order: started the stream server,
  registered (the lookup of the master's row, then the insert or the update), spawned
  the monitor loop, run the loop's iterations, waited for the termination signal, and
  stopped the server. The master's row is online when the loop is spawned, and all
  events of the loop come after the registration. When the server's start or the
  registration fails, \<open>Start\<close> panics before the loop is spawned.
\<close>

theorem Start_order:
  "(Start sched svc w = (w', None) \<longrightarrow>
      (\<exists>w1 w2 R M.
          server_Start w = (w1, None) \<and> Register w1 = (w2, None)
        \<and> since w w' = EvServerStart # R @ EvGo # M @ [EvWait, EvServerStop]
        \<and> R = since w1 w2
        \<and> (R = [EvGetNodeByKey (nodeKey w), EvAdd (nodeKey w)]
           \<or> R = [EvGetNodeByKey (nodeKey w), EvUpdateStatus (nodeKey w) NodeStatusOnline])
        \<and> M = since (emit EvGo w2) (fst (Monitor sched svc (emit EvGo w2)))
        \<and> EvGo \<notin> set M
        \<and> (\<exists>m\<in>set (nodes w2). Key m = nodeKey w \<and> Status m = NodeStatusOnline)))
   \<and> (Start sched svc w = (w', Some e) \<longrightarrow>
        EvGo \<notin> set (since w w') \<and> EvWait \<notin> set (since w w')
        \<and> (serverStartErr w = Some e \<or> snd (Register (fst (server_Start w))) = Some e))"
proof -
  have ok: "Start sched svc w = (w', None) \<longrightarrow>
      (\<exists>w1 w2 R M.
          server_Start w = (w1, None) \<and> Register w1 = (w2, None)
        \<and> since w w' = EvServerStart # R @ EvGo # M @ [EvWait, EvServerStop]
        \<and> R = since w1 w2
        \<and> (R = [EvGetNodeByKey (nodeKey w), EvAdd (nodeKey w)]
           \<or> R = [EvGetNodeByKey (nodeKey w), EvUpdateStatus (nodeKey w) NodeStatusOnline])
        \<and> M = since (emit EvGo w2) (fst (Monitor sched svc (emit EvGo w2)))
        \<and> EvGo \<notin> set M
        \<and> (\<exists>m\<in>set (nodes w2). Key m = nodeKey w \<and> Status m = NodeStatusOnline))"
  proof
  assume S: "Start sched svc w = (w', None)"
  let ?w1 = "fst (server_Start w)"
  let ?w2 = "fst (Register ?w1)"
  let ?w3 = "emit EvGo ?w2"
  let ?w4 = "fst (Monitor sched svc ?w3)"
  let ?R = "since ?w1 ?w2"
  let ?M = "since ?w3 ?w4"
  from S have a: "serverStartErr w = None" "snd (Register ?w1) = None" "w' = Stop (Wait ?w4)"
    by (auto simp: Start_eq split: option.splits)
  have s1: "server_Start w = (?w1, None)" using a(1) by (simp add: prod_eq_iff)
  have s2: "Register ?w1 = (?w2, None)" using a(2) by (simp add: prod_eq_iff)
  obtain es where es: "events ?w4 = events ?w3 @ es" "EvGo \<notin> set es"
    using Monitor_run[of sched svc ?w3] by blast
  have M: "?M = es" using es(1) by (rule since_append)
  obtain R where R: "events ?w2 = events ?w1 @ R"
    by (simp add: Register_events)
  have R': "?R = R" using R by (rule since_append)
  have sh: "?R = [EvGetNodeByKey (nodeKey w), EvAdd (nodeKey w)]
           \<or> ?R = [EvGetNodeByKey (nodeKey w), EvUpdateStatus (nodeKey w) NodeStatusOnline]"
    using Register_events_ok[OF a(2)] by simp
  have "events w' = events w @ (EvServerStart # R @ EvGo # es @ [EvWait, EvServerStop])"
    using a(3) es(1) R by simp
  then have ev: "since w w' = EvServerStart # ?R @ EvGo # ?M @ [EvWait, EvServerStop]"
    unfolding M R' by (rule since_append)
  have on: "\<exists>m\<in>set (nodes ?w2). Key m = nodeKey w \<and> Status m = NodeStatusOnline"
    using Register_ok_online[OF a(2)] by auto
  from s1 s2 ev sh on es(2) M
  show "\<exists>w1 w2 R M.
          server_Start w = (w1, None) \<and> Register w1 = (w2, None)
        \<and> since w w' = EvServerStart # R @ EvGo # M @ [EvWait, EvServerStop]
        \<and> R = since w1 w2
        \<and> (R = [EvGetNodeByKey (nodeKey w), EvAdd (nodeKey w)]
           \<or> R = [EvGetNodeByKey (nodeKey w), EvUpdateStatus (nodeKey w) NodeStatusOnline])
        \<and> M = since (emit EvGo w2) (fst (Monitor sched svc (emit EvGo w2)))
        \<and> EvGo \<notin> set M
        \<and> (\<exists>m\<in>set (nodes w2). Key m = nodeKey w \<and> Status m = NodeStatusOnline)"
    by blast
  qed
  have panic: "Start sched svc w = (w', Some e) \<longrightarrow>
        EvGo \<notin> set (since w w') \<and> EvWait \<notin> set (since w w')
        \<and> (serverStartErr w = Some e \<or> snd (Register (fst (server_Start w))) = Some e)"
  proof
  assume S: "Start sched svc w = (w', Some e)"
  let ?w1 = "fst (server_Start w)"
  show "EvGo \<notin> set (since w w') \<and> EvWait \<notin> set (since w w')
        \<and> (serverStartErr w = Some e \<or> snd (Register ?w1) = Some e)"
  proof (cases "serverStartErr w")
    case (Some err)
    with S have "w' = ?w1" "err = e" by (simp_all add: Start_eq)
    then have "events w' = events w @ [EvServerStart]" by simp
    then have "since w w' = [EvServerStart]" by (rule since_append)
    with Some \<open>err = e\<close> show ?thesis by simp
  next
    case None
    with S have r: "snd (Register ?w1) = Some e" "w' = fst (Register ?w1)"
      by (auto simp: Start_eq split: option.splits)
    obtain es where es: "events (fst (Register ?w1)) = events ?w1 @ es"
      "EvGo \<notin> set es" "EvWait \<notin> set es"
      using Register_only by blast
    have "events w' = events w @ (EvServerStart # es)" unfolding r(2) using es(1) by simp
    from since_append[OF this] r(1) es(2,3) show ?thesis by simp
  qed
  qed
  from ok panic show ?thesis by blast
qed

theorem Start_order_witness:
  "snd (Start 1 svc0 world0) = None
   \<and> (\<exists>R M. since world0 (fst (Start 1 svc0 world0)) = EvServerStart # R @ EvGo # M @ [EvWait, EvServerStop]
        \<and> (R = [EvGetNodeByKey ''m1'', EvAdd ''m1'']
           \<or> R = [EvGetNodeByKey ''m1'', EvUpdateStatus ''m1'' NodeStatusOnline])
        \<and> EvGo \<notin> set M)
   \<and> snd (Start 1 svc0 world0_port_taken) = Some (ErrorNew ''address already in use'')
   \<and> EvGo \<notin> set (since world0_port_taken (fst (Start 1 svc0 world0_port_taken)))"
proof -
  let ?e = "ErrorNew ''address already in use''"
  have k: "nodeKey world0 = ''m1''" by (simp add: world0_def)
  have "snd (Start (Suc 0) svc0 world0) = None"
    by (simp add: loop_defs tick_defs eval_defs world0_def)
  then have s1: "snd (Start 1 svc0 world0) = None" by simp
  then have S1: "Start 1 svc0 world0 = (fst (Start 1 svc0 world0), None)"
    by (simp add: prod_eq_iff)
  have "snd (Start (Suc 0) svc0 world0_port_taken) = Some ?e"
    by (simp add: loop_defs world0_port_taken_def tick_defs eval_defs world0_def)
  then have s2: "snd (Start 1 svc0 world0_port_taken) = Some ?e" by simp
  then have S2: "Start 1 svc0 world0_port_taken = (fst (Start 1 svc0 world0_port_taken), Some ?e)"
    by (simp add: prod_eq_iff)
  have a: "\<exists>R M. since world0 (fst (Start 1 svc0 world0)) = EvServerStart # R @ EvGo # M @ [EvWait, EvServerStop]
        \<and> (R = [EvGetNodeByKey (nodeKey world0), EvAdd (nodeKey world0)]
           \<or> R = [EvGetNodeByKey (nodeKey world0), EvUpdateStatus (nodeKey world0) NodeStatusOnline])
        \<and> EvGo \<notin> set M"
    using Start_order [of 1 svc0 world0 "fst (Start 1 svc0 world0)" ?e] S1 by blast
  have b: "EvGo \<notin> set (since world0_port_taken (fst (Start 1 svc0 world0_port_taken)))"
    using Start_order [of 1 svc0 world0_port_taken "fst (Start 1 svc0 world0_port_taken)" ?e] S2
    by blast
  from s1 s2 a b show ?thesis unfolding k by blast
qed

text \<open>
  C8, as amended. After \<open>Stop\<close> the stream server is stopped and the subscription table
  is empty. \<open>Stop\<close> does not cancel the monitor loop: an iteration after it begins a
  tick as before, the loop returns only under \<open>stop_on_error\<close>, and without
  \<open>stop_on_error\<close> it runs every tick it is given.
\<close>

theorem Stop_does_not_cancel:
  "\<not> serverRunning (Stop w) \<and> subs (Stop w) = [] \<and> since w (Stop w) = [EvServerStop]
   \<and> (\<exists>es. since (Stop w) (fst (Monitor (Suc k) svc (Stop w))) = EvGetNodeByKey (nodeKey w) # es)
   \<and> (snd (Monitor k svc (Stop w)) \<longrightarrow> stopOnError svc)
   \<and> (\<not> stopOnError svc \<longrightarrow>
        \<not> snd (Monitor k svc (Stop w))
        \<and> length (filter is_tick (since (Stop w) (fst (Monitor k svc (Stop w))))) = k)"
proof -
  let ?w = "Stop w"
  have a: "\<not> serverRunning ?w \<and> subs ?w = [] \<and> since w ?w = [EvServerStop]"
    by (simp add: since_def)
  obtain es0 where "events (fst (Monitor (Suc k) svc ?w)) = events ?w @ EvGetNodeByKey (nodeKey ?w) # es0"
    using Monitor_Suc_head by blast
  then have "events (fst (Monitor (Suc k) svc ?w)) = events ?w @ EvGetNodeByKey (nodeKey w) # es0"
    by simp
  then have b: "\<exists>es. since ?w (fst (Monitor (Suc k) svc ?w)) = EvGetNodeByKey (nodeKey w) # es"
    using since_append by blast
  obtain es where es: "events (fst (Monitor k svc ?w)) = events ?w @ es"
      "snd (Monitor k svc ?w) \<longrightarrow> stopOnError svc"
      "\<not> snd (Monitor k svc ?w) \<longrightarrow> length (filter is_tick es) = k"
    using Monitor_run[of k svc ?w] by blast
  have s: "since ?w (fst (Monitor k svc ?w)) = es" using es(1) by (rule since_append)
  from a b es(2,3) show ?thesis unfolding s by blast
qed

theorem Stop_does_not_cancel_witness:
  "\<not> stopOnError svc0
   \<and> \<not> snd (Monitor 1 svc0 (Stop cluster))
   \<and> length (filter is_tick (since (Stop cluster) (fst (Monitor 1 svc0 (Stop cluster))))) = 1
   \<and> snd (Monitor 1 (StopOnError svc0) (Stop cluster))
   \<and> stopOnError (StopOnError svc0)"
proof -
  have s0: "\<not> stopOnError svc0" by (simp add: svc0_def)
  have "snd (Monitor (Suc 0) (StopOnError svc0) (Stop cluster))"
    by (simp add: loop_defs tick_defs eval_defs ex_defs)
  then have x: "snd (Monitor 1 (StopOnError svc0) (Stop cluster))" by simp
  have a: "\<not> snd (Monitor 1 svc0 (Stop cluster))
        \<and> length (filter is_tick (since (Stop cluster) (fst (Monitor 1 svc0 (Stop cluster))))) = 1"
    using Stop_does_not_cancel [of cluster 1 svc0] s0 by blast
  have b: "stopOnError (StopOnError svc0)"
    using Stop_does_not_cancel [of cluster 1 "StopOnError svc0"] x by blast
  from s0 x a b show ?thesis by blast
qed

text \<open>
  C8 as stated fails: after \<open>Stop\<close>, without \<open>stop_on_error\<close>, the loop runs a whole tick
  (it sets both workers offline, their subscriptions being closed), sleeps, and is
  still running.
\<close>

theorem monitor_ticks_after_Stop:
  "\<not> snd (Monitor 1 svc0 (Stop cluster))
   \<and> since (Stop cluster) (fst (Monitor 1 svc0 (Stop cluster))) =
       [EvGetNodeByKey ''m1'', EvUpdateStatus ''m1'' NodeStatusOnline, EvGetNodeList,
        EvGetSubscribe ''w1'', EvPrintError ErrorSubscribeNotExists,
        EvUpdateStatus ''w1'' NodeStatusOffline,
        EvGetSubscribe ''w2'', EvPrintError ErrorSubscribeNotExists,
        EvUpdateStatus ''w2'' NodeStatusOffline,
        EvPrintError ErrorNodeMonitorError, EvPrintError ErrorNodeMonitorError,
        EvSleep (60 * Second)]"
proof -
  have "\<not> snd (Monitor (Suc 0) svc0 (Stop cluster))
   \<and> since (Stop cluster) (fst (Monitor (Suc 0) svc0 (Stop cluster))) =
       [EvGetNodeByKey ''m1'', EvUpdateStatus ''m1'' NodeStatusOnline, EvGetNodeList,
        EvGetSubscribe ''w1'', EvPrintError ErrorSubscribeNotExists,
        EvUpdateStatus ''w1'' NodeStatusOffline,
        EvGetSubscribe ''w2'', EvPrintError ErrorSubscribeNotExists,
        EvUpdateStatus ''w2'' NodeStatusOffline,
        EvPrintError ErrorNodeMonitorError, EvPrintError ErrorNodeMonitorError,
        EvSleep (60 * Second)]"
    by (simp add: loop_defs tick_defs eval_defs ex_defs)
  then show ?thesis by simp
qed

end
